theory Spec2Isabelle
  imports Complex_Main "HOL-Library.AList" "HOL-Library.Char_ord" "HOL-Library.Word"
begin

section \<open>Comment sentiment analysis: data model\<close>

text \<open>
  The development embeds \<^verbatim>\<open>comment_sentiment.go\<close>. Conventions:
  \<^item> a Go \<^verbatim>\<open>string\<close> is a byte sequence, here a \<open>string\<close> (\<open>char list\<close>); \<^verbatim>\<open>len\<close> is
    \<open>length\<close>;
  \<^item> a Go \<^verbatim>\<open>int\<close> is an \<open>int\<close> (no arithmetic in this file can leave 64 bits);
  \<^item> a Go \<^verbatim>\<open>float32\<close> is a value of the datatype \<open>float32\<close> below: NaN, the infinities
    and the signed finite values, with every operation rounded to single precision;
  \<^item> a Go map is an association list whose keys are distinct; the order of the entries
    stands for the unspecified order in which \<^verbatim>\<open>range\<close> visits the map. A \<^verbatim>\<open>nil\<close> map is
    \<open>None\<close>: reading it gives the zero value, writing it panics;
  \<^item> a panic is the left summand of the result.
\<close>

type_synonym ('k, 'v) gomap = "('k \<times> 'v) list"

definition keys :: "('k, 'v) gomap \<Rightarrow> 'k list" where
  "keys m = map fst m"

text \<open>\<^verbatim>\<open>m[k]\<close> for a map of slices: the zero value \<^verbatim>\<open>nil\<close> (the empty slice) when absent.\<close>

definition index :: "('k, 'v list) gomap \<Rightarrow> 'k \<Rightarrow> 'v list" where
  "index m k = (case map_of m k of None \<Rightarrow> [] | Some v \<Rightarrow> v)"

definition entries :: "('k, 'v) gomap option \<Rightarrow> ('k, 'v) gomap" where
  "entries m = (case m of None \<Rightarrow> [] | Some al \<Rightarrow> al)"

datatype panic =
  ErrorPanic string
  | IndexOutOfRange
  | NilMapAssignment
  | NilDereference
  | TypeAssertion

section \<open>float32\<close>

text \<open>
  A \<^verbatim>\<open>float32\<close> is NaN, an infinity with its sign, or a finite value with its sign
  (\<open>True\<close> for negative, so that there are two zeros) and its magnitude. Every arithmetic
  operation computes the exact result and rounds it to the nearest value that single
  precision represents, a tie going to the even significand, as IEEE 754 and Go do; the
  operations of this file cannot be fused, so each of them rounds.
\<close>

datatype float32 = NaN | Inf bool | Fin bool real

definition pow2 :: "int \<Rightarrow> real" where
  "pow2 n = (if 0 \<le> n then 2 ^ nat n else 1 / 2 ^ nat (- n))"

text \<open>
  The exponent of a magnitude, between -126 and 127: the \<open>e\<close> with \<open>2^e \<le> x < 2^(e+1)\<close>
  when there is one in that range, -126 for the subnormal magnitudes below and 127 for the
  magnitudes above.
\<close>

fun expoUp :: "nat \<Rightarrow> real \<Rightarrow> nat" where
  "expoUp 0 x = 0"
| "expoUp (Suc k) x = (if x < 2 then 0 else Suc (expoUp k (x / 2)))"

fun expoDown :: "nat \<Rightarrow> real \<Rightarrow> nat" where
  "expoDown 0 x = 0"
| "expoDown (Suc k) x = (if 1 \<le> x then 0 else Suc (expoDown k (x * 2)))"

definition expo :: "real \<Rightarrow> int" where
  "expo x = (if 1 \<le> x then int (expoUp 127 x) else - int (expoDown 126 x))"

definition roundHalfEven :: "real \<Rightarrow> int" where
  "roundHalfEven y =
     (if y - of_int \<lfloor>y\<rfloor> < 1 / 2 then \<lfloor>y\<rfloor>
      else if y - of_int \<lfloor>y\<rfloor> > 1 / 2 then \<lfloor>y\<rfloor> + 1
      else if even \<lfloor>y\<rfloor> then \<lfloor>y\<rfloor> else \<lfloor>y\<rfloor> + 1)"

text \<open>
  Rounding a sign and an exact magnitude: the magnitude becomes the nearest multiple of
  \<open>2^(e-23)\<close> (24 significant bits, fewer for subnormals), and overflows to infinity when
  that multiple reaches \<open>2^128\<close>.
\<close>

definition round32 :: "bool \<Rightarrow> real \<Rightarrow> float32" where
  "round32 s x =
     (let q = pow2 (expo x - 23);
          r = of_int (roundHalfEven (x / q)) * q
      in if pow2 128 \<le> r then Inf s else Fin s r)"

definition signedVal :: "bool \<Rightarrow> real \<Rightarrow> real" where
  "signedVal s m = (if s then - m else m)"

fun fadd :: "float32 \<Rightarrow> float32 \<Rightarrow> float32" where
  "fadd NaN b = NaN"
| "fadd a NaN = NaN"
| "fadd (Inf s) (Inf t) = (if s = t then Inf s else NaN)"
| "fadd (Inf s) (Fin t n) = Inf s"
| "fadd (Fin s m) (Inf t) = Inf t"
| "fadd (Fin s m) (Fin t n) =
     (if signedVal s m + signedVal t n = 0 then Fin (s \<and> t) 0
      else round32 (signedVal s m + signedVal t n < 0) \<bar>signedVal s m + signedVal t n\<bar>)"

fun fneg :: "float32 \<Rightarrow> float32" where
  "fneg NaN = NaN"
| "fneg (Inf s) = Inf (\<not> s)"
| "fneg (Fin s m) = Fin (\<not> s) m"

definition fsub :: "float32 \<Rightarrow> float32 \<Rightarrow> float32" where
  "fsub a b = fadd a (fneg b)"

fun fmul :: "float32 \<Rightarrow> float32 \<Rightarrow> float32" where
  "fmul NaN b = NaN"
| "fmul a NaN = NaN"
| "fmul (Inf s) (Inf t) = Inf (s \<noteq> t)"
| "fmul (Inf s) (Fin t n) = (if n = 0 then NaN else Inf (s \<noteq> t))"
| "fmul (Fin s m) (Inf t) = (if m = 0 then NaN else Inf (s \<noteq> t))"
| "fmul (Fin s m) (Fin t n) = round32 (s \<noteq> t) (m * n)"

fun fdiv :: "float32 \<Rightarrow> float32 \<Rightarrow> float32" where
  "fdiv NaN b = NaN"
| "fdiv a NaN = NaN"
| "fdiv (Inf s) (Inf t) = NaN"
| "fdiv (Inf s) (Fin t n) = Inf (s \<noteq> t)"
| "fdiv (Fin s m) (Inf t) = Fin (s \<noteq> t) 0"
| "fdiv (Fin s m) (Fin t n) =
     (if n = 0 then (if m = 0 then NaN else Inf (s \<noteq> t))
      else round32 (s \<noteq> t) (m / n))"

text \<open>
  The comparisons \<^verbatim>\<open><\<close> and \<^verbatim>\<open><=\<close>; \<^verbatim>\<open>a > b\<close> is \<open>flt b a\<close> and \<^verbatim>\<open>a >= b\<close> is \<open>fle b a\<close>.
  Every comparison with NaN is false, and the two zeros are equal.
\<close>

fun flt :: "float32 \<Rightarrow> float32 \<Rightarrow> bool" where
  "flt NaN b = False"
| "flt a NaN = False"
| "flt (Inf s) (Inf t) = (s \<and> \<not> t)"
| "flt (Inf s) (Fin t n) = s"
| "flt (Fin s m) (Inf t) = (\<not> t)"
| "flt (Fin s m) (Fin t n) = (signedVal s m < signedVal t n)"

fun fle :: "float32 \<Rightarrow> float32 \<Rightarrow> bool" where
  "fle NaN b = False"
| "fle a NaN = False"
| "fle (Inf s) (Inf t) = (s \<or> \<not> t)"
| "fle (Inf s) (Fin t n) = s"
| "fle (Fin s m) (Inf t) = (\<not> t)"
| "fle (Fin s m) (Fin t n) = (signedVal s m \<le> signedVal t n)"

text \<open>
  The conversions \<^verbatim>\<open>float32(i)\<close> of an integer and \<^verbatim>\<open>float32(c)\<close> of a decimal constant.
  The constants 0, 0.5 and 1 of the source are exact and written \<open>Fin False 0\<close>,
  \<open>Fin False 0.5\<close> and \<open>Fin False 1\<close>.
\<close>

definition float32_of_int :: "int \<Rightarrow> float32" where
  "float32_of_int i = round32 (i < 0) \<bar>of_int i\<bar>"

definition float32_of_real :: "real \<Rightarrow> float32" where
  "float32_of_real x = round32 (x < 0) \<bar>x\<bar>"

section \<open>The analysis and its result\<close>

text \<open>\<^verbatim>\<open>plumbing.Hash\<close> is \<^verbatim>\<open>[20]byte\<close>.\<close>

type_synonym Hash = "8 word list"

text \<open>\<^verbatim>\<open>ChangesXPather\<close> holds the XPath query.\<close>

record ChangesXPather =
  XPath :: string

record CommentSentimentAnalysis =
  MinCommentLength :: int
  Gap :: float32
  commentsByDay :: "(int, string list) gomap option"
  commitsByDay :: "(int, Hash list) gomap option"
  xpather :: "ChangesXPather option"

record CommentSentimentResult =
  EmotionsByDay :: "(int, float32) gomap"
  CommentsByDay :: "(int, string list) gomap"
  resCommitsByDay :: "(int, Hash list) gomap option"

definition DefaultCommentSentimentCommentMinLength :: int where
  "DefaultCommentSentimentCommentMinLength = 20"

definition DefaultCommentSentimentGap :: float32 where
  "DefaultCommentSentimentGap = Fin False 0.5"

section \<open>Strings and regular expressions\<close>

subsection \<open>The strings package\<close>

text \<open>
  \<^verbatim>\<open>unicode.IsSpace\<close>, as UTF-8 encodings: the ASCII characters tab, line feed, vertical
  tab, form feed, carriage return and space, then U+0085, U+00A0, U+1680, U+2000 to
  U+200A, U+2028, U+2029, U+202F, U+205F and U+3000.
\<close>

definition spaceRunes :: "string list" where
  "spaceRunes =
     [[CHR 0x09], [CHR 0x0A], [CHR 0x0B], [CHR 0x0C], [CHR 0x0D], [CHR 0x20],
      [CHR 0xC2, CHR 0x85], [CHR 0xC2, CHR 0xA0],
      [CHR 0xE1, CHR 0x9A, CHR 0x80],
      [CHR 0xE2, CHR 0x80, CHR 0x80], [CHR 0xE2, CHR 0x80, CHR 0x81],
      [CHR 0xE2, CHR 0x80, CHR 0x82], [CHR 0xE2, CHR 0x80, CHR 0x83],
      [CHR 0xE2, CHR 0x80, CHR 0x84], [CHR 0xE2, CHR 0x80, CHR 0x85],
      [CHR 0xE2, CHR 0x80, CHR 0x86], [CHR 0xE2, CHR 0x80, CHR 0x87],
      [CHR 0xE2, CHR 0x80, CHR 0x88], [CHR 0xE2, CHR 0x80, CHR 0x89],
      [CHR 0xE2, CHR 0x80, CHR 0x8A],
      [CHR 0xE2, CHR 0x80, CHR 0xA8], [CHR 0xE2, CHR 0x80, CHR 0xA9],
      [CHR 0xE2, CHR 0x80, CHR 0xAF], [CHR 0xE2, CHR 0x81, CHR 0x9F],
      [CHR 0xE3, CHR 0x80, CHR 0x80]]"

text \<open>The width in bytes of the white space rune a string starts (ends) with, 0 if none.\<close>

definition leadingSpace :: "string \<Rightarrow> nat" where
  "leadingSpace s =
     (case find (\<lambda>e. take (length e) s = e) spaceRunes of None \<Rightarrow> 0 | Some e \<Rightarrow> length e)"

definition trailingSpace :: "string \<Rightarrow> nat" where
  "trailingSpace s =
     (case find (\<lambda>e. length e \<le> length s \<and> drop (length s - length e) s = e) spaceRunes of
        None \<Rightarrow> 0 | Some e \<Rightarrow> length e)"

function TrimLeft :: "string \<Rightarrow> string" where
  "TrimLeft s = (if leadingSpace s = 0 then s else TrimLeft (drop (leadingSpace s) s))"
  by pat_completeness auto
termination
proof (relation "measure length")
  show "wf (measure length)" by simp
next
  fix s :: string
  assume pos: "leadingSpace s \<noteq> 0"
  have "leadingSpace s \<le> length s"
  proof (cases "find (\<lambda>e. take (length e) s = e) spaceRunes")
    case None
    then show ?thesis by (simp add: leadingSpace_def)
  next
    case (Some e)
    then have "take (length e) s = e" by (auto dest: find_Some_iff [THEN iffD1])
    then have "length e \<le> length s" by (metis length_take min.cobounded1)
    with Some show ?thesis by (simp add: leadingSpace_def)
  qed
  with pos show "(drop (leadingSpace s) s, s) \<in> measure length" by simp
qed

function TrimRight :: "string \<Rightarrow> string" where
  "TrimRight s =
     (if trailingSpace s = 0 then s else TrimRight (take (length s - trailingSpace s) s))"
  by pat_completeness auto
termination
proof (relation "measure length")
  show "wf (measure length)" by simp
next
  fix s :: string
  assume pos: "trailingSpace s \<noteq> 0"
  have "trailingSpace s \<le> length s"
    by (auto simp: trailingSpace_def split: option.splits dest: find_Some_iff [THEN iffD1])
  with pos show "(take (length s - trailingSpace s) s, s) \<in> measure length" by simp
qed

declare TrimLeft.simps [simp del] TrimRight.simps [simp del]

definition TrimSpace :: "string \<Rightarrow> string" where
  "TrimSpace s = TrimRight (TrimLeft s)"

fun Join :: "string list \<Rightarrow> string \<Rightarrow> string" where
  "Join [] sep = []"
| "Join [x] sep = x"
| "Join (x # y # zs) sep = x @ sep @ Join (y # zs) sep"

subsection \<open>The regexp package\<close>

text \<open>
  The patterns of this file are built from single characters, character classes, greedy
  repetitions of a class, concatenation and alternation. They are matched on bytes. Go
  matches on runes, but every character the patterns name is ASCII except two that are
  written out as their UTF-8 bytes below, a byte below 0x80 is always a rune of its own,
  and a negated class matches every rune whose bytes are 0x80 or above, so that the byte
  level gives the same matches.
\<close>

datatype regex =
  Empty
  | Class "char \<Rightarrow> bool"
  | Star "char \<Rightarrow> bool"
  | Plus "char \<Rightarrow> bool"
  | Cat regex regex
  | Alt regex regex

text \<open>
  The lengths of the matches of a pattern that start at the beginning of the string, in
  the order of preference of a backtracking matcher (leftmost-first, the semantics of
  Go's \<^verbatim>\<open>regexp\<close>): a greedy repetition prefers more, an alternation prefers its left
  branch.
\<close>

fun lens :: "regex \<Rightarrow> string \<Rightarrow> nat list" where
  "lens Empty s = [0]"
| "lens (Class P) s = (case s of [] \<Rightarrow> [] | c # _ \<Rightarrow> if P c then [1] else [])"
| "lens (Star P) s = rev [0 ..< Suc (length (takeWhile P s))]"
| "lens (Plus P) s = rev [1 ..< Suc (length (takeWhile P s))]"
| "lens (Cat r1 r2) s = concat (map (\<lambda>n. map (\<lambda>m. n + m) (lens r2 (drop n s))) (lens r1 s))"
| "lens (Alt r1 r2) s = lens r1 s @ lens r2 s"

definition matchAt :: "regex \<Rightarrow> string \<Rightarrow> nat option" where
  "matchAt re s = (case lens re s of [] \<Rightarrow> None | n # _ \<Rightarrow> Some n)"

text \<open>\<^verbatim>\<open>re.MatchString(s)\<close>: the pattern matches somewhere in the string.\<close>

fun MatchString :: "regex \<Rightarrow> string \<Rightarrow> bool" where
  "MatchString re [] = (matchAt re [] \<noteq> None)"
| "MatchString re (c # cs) = (matchAt re (c # cs) \<noteq> None \<or> MatchString re cs)"

text \<open>
  \<^verbatim>\<open>re.ReplaceAllString(s, repl)\<close> and \<^verbatim>\<open>re.FindAllStringIndex(s, -1)\<close>, for patterns that
  match at least one byte (all patterns these are called with do): scan from the left,
  take the preferred match at the first position that has one, continue after it.
\<close>

function ReplaceAllString :: "regex \<Rightarrow> string \<Rightarrow> string \<Rightarrow> string" where
  "ReplaceAllString re [] repl = []"
| "ReplaceAllString re (c # cs) repl =
     (case matchAt re (c # cs) of
        None \<Rightarrow> c # ReplaceAllString re cs repl
      | Some n \<Rightarrow>
          if 0 < n then repl @ ReplaceAllString re (drop n (c # cs)) repl
          else c # ReplaceAllString re cs repl)"
  by pat_completeness auto
termination
  by (relation "measure (\<lambda>(re, s, repl). length s)") auto

function FindAllStringIndex :: "regex \<Rightarrow> string \<Rightarrow> int \<Rightarrow> (int \<times> int) list" where
  "FindAllStringIndex re [] pos = []"
| "FindAllStringIndex re (c # cs) pos =
     (case matchAt re (c # cs) of
        None \<Rightarrow> FindAllStringIndex re cs (pos + 1)
      | Some n \<Rightarrow>
          if 0 < n then (pos, pos + int n) # FindAllStringIndex re (drop n (c # cs)) (pos + int n)
          else FindAllStringIndex re cs (pos + 1))"
  by pat_completeness auto
termination
  by (relation "measure (\<lambda>(re, s, pos). length s)") auto

text \<open>A literal string; under \<^verbatim>\<open>(?i)\<close> an ASCII letter matches both of its cases.\<close>

definition toLower :: "char \<Rightarrow> char" where
  "toLower c = (if CHR ''A'' \<le> c \<and> c \<le> CHR ''Z'' then char_of (of_char c + (32 :: nat)) else c)"

fun lit :: "string \<Rightarrow> regex" where
  "lit [] = Empty"
| "lit [c] = Class (\<lambda>x. x = c)"
| "lit (c # cs) = Cat (Class (\<lambda>x. x = c)) (lit cs)"

fun liti :: "string \<Rightarrow> regex" where
  "liti [] = Empty"
| "liti [c] = Class (\<lambda>x. toLower x = c)"
| "liti (c # cs) = Cat (Class (\<lambda>x. toLower x = c)) (liti cs)"

subsection \<open>The patterns\<close>

definition isLetter :: "char \<Rightarrow> bool" where
  "isLetter c \<longleftrightarrow> (CHR ''a'' \<le> c \<and> c \<le> CHR ''z'') \<or> (CHR ''A'' \<le> c \<and> c \<le> CHR ''Z'')"

definition isDigit :: "char \<Rightarrow> bool" where
  "isDigit c \<longleftrightarrow> CHR ''0'' \<le> c \<and> c \<le> CHR ''9''"

text \<open>\<^verbatim>\<open>\s\<close> is \<^verbatim>\<open>[\t\n\f\r ]\<close>.\<close>

definition isSpace :: "char \<Rightarrow> bool" where
  "isSpace c \<longleftrightarrow> c \<in> set [CHR 0x09, CHR 0x0A, CHR 0x0C, CHR 0x0D, CHR 0x20]"

text \<open>\<^verbatim>\<open>[^a-zA-Z0-9]\<close>\<close>

definition filteredFirstCharRE :: regex where
  "filteredFirstCharRE = Class (\<lambda>c. \<not> (isLetter c \<or> isDigit c))"

text \<open>\<^verbatim>\<open>[^-a-zA-Z0-9_:;,./?!#&%+*=\n \t()]+\<close>\<close>

definition filteredCharsRE :: regex where
  "filteredCharsRE =
     Plus (\<lambda>c. \<not> (c = CHR ''-'' \<or> isLetter c \<or> isDigit c \<or>
                  c \<in> set ''_:;,./?!#&%+*='' \<or> c = CHR 0x0A \<or> c = CHR '' '' \<or>
                  c = CHR 0x09 \<or> c = CHR ''('' \<or> c = CHR '')''))"

text \<open>\<^verbatim>\<open>[a-zA-Z]+\<close>\<close>

definition charsRE :: regex where
  "charsRE = Plus isLetter"

text \<open>\<^verbatim>\<open>\s*[a-zA-Z_][a-zA-Z_0-9]*\(\)\<close>\<close>

definition functionNameRE :: regex where
  "functionNameRE =
     Cat (Star isSpace)
       (Cat (Class (\<lambda>c. isLetter c \<or> c = CHR ''_''))
          (Cat (Star (\<lambda>c. isLetter c \<or> c = CHR ''_'' \<or> isDigit c))
             (lit ''()'')))"

text \<open>\<^verbatim>\<open>\s+\<close>\<close>

definition whitespaceRE :: regex where
  "whitespaceRE = Plus isSpace"

text \<open>
  \<^verbatim>\<open>(?i)[li[cs]en[cs][ei]|copyright|\<close> followed by the copyright sign U+00A9. The first
  bracket is the class of the five characters \<^verbatim>\<open>l i [ c s\<close>. Under \<^verbatim>\<open>(?i)\<close> the letter s
  also matches U+017F, the long s, whose UTF-8 bytes are C5 BF; U+00A9 is C2 A9.
\<close>

definition licenseRE :: regex where
  "licenseRE =
     Alt (Cat (Alt (Class (\<lambda>c. toLower c \<in> set ''li[cs'')) (lit [CHR 0xC5, CHR 0xBF]))
            (Cat (liti ''en'')
               (Cat (Alt (Class (\<lambda>c. toLower c \<in> set ''cs'')) (lit [CHR 0xC5, CHR 0xBF]))
                  (Class (\<lambda>c. toLower c \<in> set ''ei'')))))
       (Alt (liti ''copyright'') (lit [CHR 0xC2, CHR 0xA9]))"

section \<open>mergeComments\<close>

text \<open>
  The fields of \<^verbatim>\<open>uast.Position\<close> and, of \<^verbatim>\<open>uast.Node\<close>, the three fields that
  \<^verbatim>\<open>mergeComments\<close> reads. A \<^verbatim>\<open>nil\<close> position is \<open>None\<close>.
\<close>

record Position =
  Offset :: "32 word"
  Line :: "32 word"
  Col :: "32 word"

record Node =
  Token :: string
  StartPosition :: "Position option"
  EndPosition :: "Position option"

text \<open>Lines 281-292: one step of the loop that buckets the nodes by start line.\<close>

definition addNode :: "(int, Node list) gomap \<Rightarrow> Node \<Rightarrow> (int, Node list) gomap" where
  "addNode lines node =
     (case StartPosition node of
        None \<Rightarrow> lines
      | Some start \<Rightarrow>
          let lineno = uint (Line start);
              subnodes = index lines lineno
          in AList.update lineno (subnodes @ [node]) lines)"

definition bucketLines :: "Node list \<Rightarrow> (int, Node list) gomap" where
  "bucketLines nodes = foldl addNode [] nodes"

text \<open>Lines 302-310: the loop over the nodes of one line, updating \<^verbatim>\<open>maxEnd\<close> and the buffer.\<close>

fun lineLoop :: "Node list \<Rightarrow> int \<Rightarrow> string list \<Rightarrow> int \<times> string list" where
  "lineLoop [] maxEnd buffer = (maxEnd, buffer)"
| "lineLoop (node # rest) maxEnd buffer =
     (let maxEnd' = (case EndPosition node of
                       None \<Rightarrow> maxEnd
                     | Some e \<Rightarrow> if maxEnd < uint (Line e) then uint (Line e) else maxEnd);
          token = TrimSpace (Token node)
      in lineLoop rest maxEnd' (if token \<noteq> [] then buffer @ [token] else buffer))"

text \<open>
  Lines 299-316: the loop over the sorted line numbers. The list argument is the part of
  \<^verbatim>\<open>lineNums\<close> from index \<^verbatim>\<open>i\<close> on, so that \<^verbatim>\<open>i < len(lineNums)-1\<close> says that a next
  element exists and \<^verbatim>\<open>lineNums[i+1]\<close> is that element.
\<close>

fun mergeLoop ::
  "(int, Node list) gomap \<Rightarrow> int list \<Rightarrow> string list \<Rightarrow> string list \<Rightarrow> string list" where
  "mergeLoop lines [] buffer mergedComments = mergedComments"
| "mergeLoop lines (line # rest) buffer mergedComments =
     (case lineLoop (index lines line) line buffer of
        (maxEnd, buffer') \<Rightarrow>
          if (case rest of [] \<Rightarrow> False | next # _ \<Rightarrow> next \<le> maxEnd + 1)
          then mergeLoop lines rest buffer' mergedComments
          else mergeLoop lines rest [] (mergedComments @ [Join buffer' [CHR 0x0A]]))"

text \<open>Lines 279-316: the merged comments, before cleaning.\<close>

definition mergeRuns :: "Node list \<Rightarrow> string list" where
  "mergeRuns nodes =
     (let lines = bucketLines nodes;
          lineNums = sort (keys lines)
      in mergeLoop lines lineNums [] [])"

definition CommentLettersRatio :: real where
  "CommentLettersRatio = 0.6"

text \<open>
  Lines 320-345: the body of the cleaning loop for one merged comment; \<open>None\<close> stands for
  \<^verbatim>\<open>continue\<close>. The threshold \<^verbatim>\<open>int(float32(len(comment))*CommentLettersRatio)\<close> is computed
  in exact arithmetic and truncated.
\<close>

definition charsCount :: "string \<Rightarrow> int" where
  "charsCount comment =
     foldl (\<lambda>count match. count + (snd match - fst match)) 0
       (FindAllStringIndex charsRE comment 0)"

definition lettersThreshold :: "string \<Rightarrow> int" where
  "lettersThreshold comment = \<lfloor>real (length comment) * CommentLettersRatio\<rfloor>"

definition cleanComment :: "int \<Rightarrow> string \<Rightarrow> string option" where
  "cleanComment minCommentLength merged =
     (let comment = TrimSpace merged
      in if comment = [] \<or> MatchString filteredFirstCharRE (take 1 comment) then None
         else let comment = ReplaceAllString functionNameRE comment [];
                  comment = ReplaceAllString filteredCharsRE comment []
              in if int (length comment) < minCommentLength then None
                 else let comment = ReplaceAllString whitespaceRE comment '' ''
                      in if charsCount comment < lettersThreshold comment then None
                         else if MatchString licenseRE comment then None
                         else Some comment)"

text \<open>Lines 318-346: the cleaning loop.\<close>

fun filterLoop :: "int \<Rightarrow> string list \<Rightarrow> string list \<Rightarrow> string list" where
  "filterLoop minCommentLength [] filteredComments = filteredComments"
| "filterLoop minCommentLength (comment # rest) filteredComments =
     (case cleanComment minCommentLength comment of
        None \<Rightarrow> filterLoop minCommentLength rest filteredComments
      | Some comment' \<Rightarrow> filterLoop minCommentLength rest (filteredComments @ [comment']))"

definition mergeComments :: "CommentSentimentAnalysis \<Rightarrow> Node list \<Rightarrow> string list" where
  "mergeComments sent nodes = filterLoop (MinCommentLength sent) (mergeRuns nodes) []"

section \<open>Configuration and the per-commit step\<close>

text \<open>
  The arguments of a formatted print (\<^verbatim>\<open>log.Printf\<close>, \<^verbatim>\<open>fmt.Fprintf\<close>). The log is the list
  of the \<^verbatim>\<open>log.Printf\<close> calls made, each with its format string and arguments.
\<close>

datatype arg = IntArg int | FloatArg float32 | StrArg string

type_synonym logLine = "string \<times> arg list"

text \<open>Lines 122-133.\<close>

definition validate :: "CommentSentimentAnalysis \<Rightarrow> CommentSentimentAnalysis \<times> logLine list" where
  "validate sent =
     (let (sent1, log1) =
            (if flt (Gap sent) (Fin False 0) \<or> fle (Fin False 1) (Gap sent)
             then (sent\<lparr>Gap := DefaultCommentSentimentGap\<rparr>,
                   [(''Sentiment gap is too big: %f => reset to the default %f'',
                     [FloatArg (Gap sent), FloatArg DefaultCommentSentimentGap])])
             else (sent, []))
      in if MinCommentLength sent1 < 10
         then (sent1\<lparr>MinCommentLength := DefaultCommentSentimentCommentMinLength\<rparr>,
               log1 @ [(''Comment minimum length is too small: %d => reset to the default %d'',
                        [IntArg (MinCommentLength sent1),
                         IntArg DefaultCommentSentimentCommentMinLength])])
         else (sent1, log1))"

text \<open>
  Lines 111-120. The keys of \<^verbatim>\<open>facts\<close> are kept abstract (\<^verbatim>\<open>FactCommitsByDay\<close> is declared
  outside this file); a value of \<^verbatim>\<open>interface{}\<close> is one of the dynamic types below, and a
  failed type assertion panics.
\<close>

datatype factKey =
  ConfigCommentSentimentMinLength
  | ConfigCommentSentimentGap
  | FactCommitsByDay
  | OtherFact string

datatype factValue =
  Float32Value float32
  | IntValue int
  | CommitsValue "(int, Hash list) gomap option"
  | OtherValue

definition Configure ::
  "CommentSentimentAnalysis \<Rightarrow> (factKey \<rightharpoonup> factValue)
     \<Rightarrow> panic + (CommentSentimentAnalysis \<times> logLine list)" where
  "Configure sent facts =
     (case (case facts ConfigCommentSentimentGap of
              None \<Rightarrow> Inr sent
            | Some (Float32Value val) \<Rightarrow> Inr (sent\<lparr>Gap := val\<rparr>)
            | Some _ \<Rightarrow> Inl TypeAssertion) of
        Inl p \<Rightarrow> Inl p
      | Inr sent1 \<Rightarrow>
          (case (case facts ConfigCommentSentimentMinLength of
                   None \<Rightarrow> Inr sent1
                 | Some (IntValue val) \<Rightarrow> Inr (sent1\<lparr>MinCommentLength := val\<rparr>)
                 | Some _ \<Rightarrow> Inl TypeAssertion) of
             Inl p \<Rightarrow> Inl p
           | Inr sent2 \<Rightarrow>
               (case validate sent2 of
                  (sent3, logged) \<Rightarrow>
                    (case facts FactCommitsByDay of
                       Some (CommitsValue commits) \<Rightarrow> Inr (sent3\<lparr>commitsByDay := commits\<rparr>, logged)
                     | _ \<Rightarrow> Inl TypeAssertion))))"

text \<open>Lines 137-141.\<close>

definition Initialize :: "CommentSentimentAnalysis \<Rightarrow> CommentSentimentAnalysis \<times> logLine list" where
  "Initialize sent =
     validate (sent\<lparr>commentsByDay := Some [],
                    xpather := Some \<lparr>XPath = ''//*[@roleComment]''\<rparr>\<rparr>)"

text \<open>
  Lines 148-160. The keys of \<^verbatim>\<open>deps\<close> are declared outside this file and kept abstract;
  \<^verbatim>\<open>UASTChange\<close> is a type parameter, and \<open>Extract\<close> stands for \<^verbatim>\<open>ChangesXPather.Extract\<close>,
  which is defined outside this file. Consume returns the updated analysis with the pair
  of its two return values (the result map and the error, \<open>None\<close> for \<^verbatim>\<open>nil\<close>), or a panic:
  of a type assertion, of a \<^verbatim>\<open>nil\<close> xpather, or of the assignment to a \<^verbatim>\<open>nil\<close> map.
\<close>

datatype depKey = DependencyUastChanges | DependencyDay | OtherDependency string

datatype 'c depValue = ChangesValue "'c list" | DayValue int | OtherDepValue


section \<open>Finalize\<close>

text \<open>
  Lines 169-177: the day keys, sorted, and the flat list of texts.
\<close>

definition sortedDays :: "CommentSentimentAnalysis \<Rightarrow> int list" where
  "sortedDays sent = sort (keys (entries (commentsByDay sent)))"

definition flatTexts :: "CommentSentimentAnalysis \<Rightarrow> string list" where
  "flatTexts sent =
     foldl (\<lambda>texts key. texts @ index (entries (commentsByDay sent)) key) [] (sortedDays sent)"

text \<open>
  Lines 210-216: the inner loop over one day's comments. It reads \<^verbatim>\<open>weights[pos]\<close>,
  which panics when \<^verbatim>\<open>pos\<close> is out of range, keeps the pair when the weight is below
  \<^verbatim>\<open>0.5*(1-Gap)\<close> or above \<^verbatim>\<open>0.5*(1+Gap)\<close>, and advances \<^verbatim>\<open>pos\<close>.
\<close>

fun dayLoop ::
  "float32 \<Rightarrow> float32 list \<Rightarrow> string list \<Rightarrow> nat \<Rightarrow> float32 \<Rightarrow> string list
     \<Rightarrow> panic + (nat \<times> float32 \<times> string list)" where
  "dayLoop gap weights [] pos sm comments = Inr (pos, sm, comments)"
| "dayLoop gap weights (comment # rest) pos sm comments =
     (if length weights \<le> pos then Inl IndexOutOfRange
      else if flt (weights ! pos) (fmul (Fin False 0.5) (fsub (Fin False 1) gap)) \<or>
              flt (fmul (Fin False 0.5) (fadd (Fin False 1) gap)) (weights ! pos)
        then dayLoop gap weights rest (pos + 1) (fadd sm (weights ! pos)) (comments @ [comment])
        else dayLoop gap weights rest (pos + 1) sm comments)"

text \<open>
  Lines 207-221: the loop over the sorted days, threading \<^verbatim>\<open>pos\<close> and the result. The sum
  starts at \<^verbatim>\<open>float32(0)\<close> and is divided by \<^verbatim>\<open>float32(len(comments))\<close>.
\<close>

fun daysLoop ::
  "CommentSentimentAnalysis \<Rightarrow> float32 list \<Rightarrow> int list \<Rightarrow> nat \<Rightarrow> CommentSentimentResult
     \<Rightarrow> panic + CommentSentimentResult" where
  "daysLoop sent weights [] pos result = Inr result"
| "daysLoop sent weights (key # rest) pos result =
     (case dayLoop (Gap sent) weights (index (entries (commentsByDay sent)) key) pos
             (Fin False 0) [] of
        Inl p \<Rightarrow> Inl p
      | Inr (pos', sm, comments) \<Rightarrow>
          if length comments > 0
          then daysLoop sent weights rest pos'
                 (result\<lparr>EmotionsByDay :=
                           AList.update key
                             (fdiv sm (float32_of_int (int (length comments))))
                             (EmotionsByDay result),
                         CommentsByDay :=
                           AList.update key comments (CommentsByDay result)\<rparr>)
          else daysLoop sent weights rest pos' result)"

text \<open>
  The sentiment package is external. \<open>OpenSession\<close> is what \<^verbatim>\<open>sentiment.OpenSession()\<close>
  returns (an error or a session) and \<open>Evaluate\<close> is \<^verbatim>\<open>sentiment.EvaluateWithProgress\<close>
  without its progress callback, which only draws a bar on the standard error stream.
  Finalize returns its result, or the panic, together with the list of argument lists the
  scorer was called with.
\<close>

definition Finalize ::
  "(string + 'session) \<Rightarrow> (string list \<Rightarrow> 'session \<Rightarrow> string + float32 list)
     \<Rightarrow> CommentSentimentAnalysis \<Rightarrow> (panic + CommentSentimentResult) \<times> string list list" where
  "Finalize OpenSession Evaluate sent =
     (let result = \<lparr>EmotionsByDay = [], CommentsByDay = [],
                    resCommitsByDay = commitsByDay sent\<rparr>;
          days = sortedDays sent;
          texts = flatTexts sent
      in case OpenSession of
           Inl err \<Rightarrow> (Inl (ErrorPanic err), [])
         | Inr session \<Rightarrow>
             (case Evaluate texts session of
                Inl err \<Rightarrow> (Inl (ErrorPanic err), [texts])
              | Inr weights \<Rightarrow> (daysLoop sent weights days 0 result, [texts])))"

section \<open>The text serializer\<close>

text \<open>\<^verbatim>\<open>%d\<close>: a decimal integer with a minus sign when negative.\<close>

definition decDigit :: "nat \<Rightarrow> char" where
  "decDigit n = ''0123456789'' ! n"

fun digits :: "nat \<Rightarrow> string" where
  "digits n = (if n < 10 then [decDigit n] else digits (n div 10) @ [decDigit (n mod 10)])"

declare digits.simps [simp del]

definition formatInt :: "int \<Rightarrow> string" where
  "formatInt i = (if i < 0 then ''-'' @ digits (nat (- i)) else digits (nat i))"

text \<open>
  \<^verbatim>\<open>%.4f\<close> of a \<^verbatim>\<open>float32\<close>: the exact value rounded to four decimals, a tie going to the
  even neighbour, with a minus sign when the sign bit is set; \<^verbatim>\<open>NaN\<close>, \<^verbatim>\<open>+Inf\<close> and \<^verbatim>\<open>-Inf\<close>
  for the special values.
\<close>

definition pad4 :: "string \<Rightarrow> string" where
  "pad4 s = replicate (4 - length s) CHR ''0'' @ s"

fun formatFloat4 :: "float32 \<Rightarrow> string" where
  "formatFloat4 NaN = ''NaN''"
| "formatFloat4 (Inf s) = (if s then ''-Inf'' else ''+Inf'')"
| "formatFloat4 (Fin s m) =
     (if s then ''-'' else []) @
     digits (nat (roundHalfEven (m * 10000)) div 10000) @ ''.'' @
     pad4 (digits (nat (roundHalfEven (m * 10000)) mod 10000))"

text \<open>
  \<^verbatim>\<open>fmt.Sprintf\<close> for the verbs \<^verbatim>\<open>%d\<close>, \<^verbatim>\<open>%s\<close> and \<^verbatim>\<open>%.4f\<close> with an argument of the matching
  type; \<open>None\<close> for any other use.
\<close>

fun Sprintf :: "string \<Rightarrow> arg list \<Rightarrow> string option" where
  "Sprintf [] args = (if args = [] then Some [] else None)"
| "Sprintf (c # fmt) args =
     (if c \<noteq> CHR ''%'' then map_option ((#) c) (Sprintf fmt args)
      else (case (fmt, args) of
              (CHR ''d'' # fmt', IntArg i # args') \<Rightarrow>
                map_option ((@) (formatInt i)) (Sprintf fmt' args')
            | (CHR ''s'' # fmt', StrArg s # args') \<Rightarrow>
                map_option ((@) s) (Sprintf fmt' args')
            | (CHR ''.'' # CHR ''4'' # CHR ''f'' # fmt', FloatArg x # args') \<Rightarrow>
                map_option ((@) (formatFloat4 x)) (Sprintf fmt' args')
            | _ \<Rightarrow> None))"

text \<open>\<^verbatim>\<open>hash.String()\<close>: the twenty bytes in lower-case hexadecimal.\<close>

definition hexDigit :: "nat \<Rightarrow> char" where
  "hexDigit n = ''0123456789abcdef'' ! n"

definition HashString :: "Hash \<Rightarrow> string" where
  "HashString h = concat (map (\<lambda>b. [hexDigit (unat b div 16), hexDigit (unat b mod 16)]) h)"

text \<open>\<^verbatim>\<open>m[k]\<close> for a map of numbers: zero when absent.\<close>

definition indexNum :: "('k, float32) gomap \<Rightarrow> 'k \<Rightarrow> float32" where
  "indexNum m k = (case map_of m k of None \<Rightarrow> Fin False 0 | Some v \<Rightarrow> v)"

text \<open>
  Lines 242-251: the loop over the sorted days. The writer is the text written so far;
  each \<^verbatim>\<open>Fprintf\<close> appends to it.
\<close>

fun textLoop :: "CommentSentimentResult \<Rightarrow> int list \<Rightarrow> string \<Rightarrow> string option" where
  "textLoop result [] writer = Some writer"
| "textLoop result (day # rest) writer =
     (let commits = index (entries (resCommitsByDay result)) day;
          hashes = map HashString commits
      in case Sprintf ''  %d: [%.4f, [%s], \"%s\"]\<newline>''
                [IntArg day, FloatArg (indexNum (EmotionsByDay result) day),
                 StrArg (Join hashes '',''),
                 StrArg (Join (index (CommentsByDay result) day) ''|'')] of
           None \<Rightarrow> None
         | Some line \<Rightarrow> textLoop result rest (writer @ line))"

text \<open>Lines 236-252.\<close>

definition serializeText :: "CommentSentimentResult \<Rightarrow> string \<Rightarrow> string option" where
  "serializeText result writer = textLoop result (sort (keys (EmotionsByDay result))) writer"

section \<open>Specification-side notions for the reducer\<close>

text \<open>The comments accumulated for a day: \<^verbatim>\<open>sent.commentsByDay[key]\<close>.\<close>

definition dayComments :: "CommentSentimentAnalysis \<Rightarrow> int \<Rightarrow> string list" where
  "dayComments sent key = index (entries (commentsByDay sent)) key"

text \<open>
  The position in the flat list at which a day's comments start: the number of comments
  of all earlier days.
\<close>

definition dayStart :: "CommentSentimentAnalysis \<Rightarrow> int \<Rightarrow> nat" where
  "dayStart sent key =
     length (concat (map (dayComments sent) (filter (\<lambda>d. d < key) (sortedDays sent))))"

text \<open>
  The (comment, score) pairs of a day under the positional mapping: the i-th text of the
  flat list goes with the i-th weight, and a day owns the slice starting at \<open>dayStart\<close>.
\<close>

definition dayPairs ::
  "CommentSentimentAnalysis \<Rightarrow> float32 list \<Rightarrow> int \<Rightarrow> (string \<times> float32) list" where
  "dayPairs sent weights key =
     take (length (dayComments sent key))
       (drop (dayStart sent key) (zip (flatTexts sent) weights))"

text \<open>The two bounds of the deadzone, as line 211 computes them in \<^verbatim>\<open>float32\<close>.\<close>

definition lowerBound :: "float32 \<Rightarrow> float32" where
  "lowerBound gap = fmul (Fin False 0.5) (fsub (Fin False 1) gap)"

definition upperBound :: "float32 \<Rightarrow> float32" where
  "upperBound gap = fmul (Fin False 0.5) (fadd (Fin False 1) gap)"

text \<open>The pairs of a day that pass the test of line 211.\<close>

definition keptPairs ::
  "CommentSentimentAnalysis \<Rightarrow> float32 list \<Rightarrow> int \<Rightarrow> (string \<times> float32) list" where
  "keptPairs sent weights key =
     filter (\<lambda>p. flt (snd p) (lowerBound (Gap sent)) \<or> flt (upperBound (Gap sent)) (snd p))
       (dayPairs sent weights key)"

text \<open>
  The \<^verbatim>\<open>float32\<close> mean of a list of scores: the scores are added one by one, in order, to
  a sum that starts at zero, each addition rounded, and the sum is divided by the count
  converted to \<^verbatim>\<open>float32\<close>, the quotient rounded.
\<close>

definition fsum :: "float32 list \<Rightarrow> float32" where
  "fsum ws = foldl fadd (Fin False 0) ws"

definition fmean :: "float32 list \<Rightarrow> float32" where
  "fmean ws = fdiv (fsum ws) (float32_of_int (int (length ws)))"

text \<open>Auxiliary notions for the loop invariants.\<close>

definition outside :: "float32 \<Rightarrow> float32 \<Rightarrow> bool" where
  "outside gap w \<longleftrightarrow> flt w (lowerBound gap) \<or> flt (upperBound gap) w"

definition keptOf :: "float32 \<Rightarrow> string list \<Rightarrow> float32 list \<Rightarrow> (string \<times> float32) list" where
  "keptOf gap cs ws = filter (\<lambda>p. outside gap (snd p)) (zip cs ws)"

definition before :: "CommentSentimentAnalysis \<Rightarrow> int list \<Rightarrow> int \<Rightarrow> nat" where
  "before sent ds k = length (concat (map (dayComments sent) (takeWhile (\<lambda>d. d \<noteq> k) ds)))"

definition keptAt ::
  "CommentSentimentAnalysis \<Rightarrow> float32 list \<Rightarrow> nat \<Rightarrow> int \<Rightarrow> (string \<times> float32) list" where
  "keptAt sent weights off k = keptOf (Gap sent) (dayComments sent k) (drop off weights)"

definition loopPost ::
  "CommentSentimentAnalysis \<Rightarrow> float32 list \<Rightarrow> int list \<Rightarrow> nat \<Rightarrow> CommentSentimentResult
     \<Rightarrow> CommentSentimentResult \<Rightarrow> bool" where
  "loopPost sent weights ds pos result r \<longleftrightarrow>
     resCommitsByDay r = resCommitsByDay result \<and>
     (\<forall>k. map_of (CommentsByDay r) k =
        (if k \<in> set ds \<and> keptAt sent weights (pos + before sent ds k) k \<noteq> []
         then Some (map fst (keptAt sent weights (pos + before sent ds k) k))
         else map_of (CommentsByDay result) k)) \<and>
     (\<forall>k. map_of (EmotionsByDay r) k =
        (if k \<in> set ds \<and> keptAt sent weights (pos + before sent ds k) k \<noteq> []
         then Some (fmean (map snd (keptAt sent weights (pos + before sent ds k) k)))
         else map_of (EmotionsByDay result) k))"

section \<open>Specification-side notions for the merger\<close>

definition lineNo :: "Node \<Rightarrow> int option" where
  "lineNo node = map_option (\<lambda>p. uint (Line p)) (StartPosition node)"

definition endLine :: "Node \<Rightarrow> int option" where
  "endLine node = map_option (\<lambda>p. uint (Line p)) (EndPosition node)"

definition nodesAt :: "Node list \<Rightarrow> int \<Rightarrow> Node list" where
  "nodesAt nodes l = filter (\<lambda>n. lineNo n = Some l) nodes"

definition lineNumbers :: "Node list \<Rightarrow> int list" where
  "lineNumbers nodes = sort (remdups (List.map_filter lineNo nodes))"

text \<open>
  The sorted lines split into runs: a run continues from a line to the next exactly when
  the next line number is at most \<open>maxEnd + 1\<close>, for a given \<open>maxEnd\<close> of each line.
\<close>

fun runs :: "(int \<Rightarrow> int) \<Rightarrow> int list \<Rightarrow> int list list" where
  "runs maxEnd [] = []"
| "runs maxEnd [l] = [[l]]"
| "runs maxEnd (l # next # rest) =
     (if next \<le> maxEnd l + 1
      then (case runs maxEnd (next # rest) of [] \<Rightarrow> [[l]] | r # rs \<Rightarrow> (l # r) # rs)
      else [l] # runs maxEnd (next # rest))"

text \<open>
  The merger in the words of the specification: \<open>maxEnd\<close> is the largest end line among
  the line's nodes, or the line itself if no node of the line has an end position, and
  the trimmed token of every node of a run is recorded and the tokens are joined by
  newlines.
\<close>

definition literalMaxEnd :: "Node list \<Rightarrow> int \<Rightarrow> int" where
  "literalMaxEnd nodes l =
     (case List.map_filter endLine (nodesAt nodes l) of
        [] \<Rightarrow> l
      | e # es \<Rightarrow> Max (set (e # es)))"

definition trimmedTokensAt :: "Node list \<Rightarrow> int \<Rightarrow> string list" where
  "trimmedTokensAt nodes l = map (\<lambda>n. TrimSpace (Token n)) (nodesAt nodes l)"

definition specMerge :: "Node list \<Rightarrow> string list" where
  "specMerge nodes =
     map (\<lambda>run. Join (concat (map (trimmedTokensAt nodes) run)) [CHR 0x0A])
       (runs (literalMaxEnd nodes) (lineNumbers nodes))"

text \<open>
  The merger of the amended statement: \<open>maxEnd\<close> is the largest of the line itself and
  the end lines of its nodes, and only the trimmed tokens that are not empty are
  recorded.
\<close>

definition maxEndAt :: "Node list \<Rightarrow> int \<Rightarrow> int" where
  "maxEndAt nodes l = Max (set (l # List.map_filter endLine (nodesAt nodes l)))"

definition tokensAt :: "Node list \<Rightarrow> int \<Rightarrow> string list" where
  "tokensAt nodes l =
     filter (\<lambda>t. t \<noteq> []) (map (\<lambda>n. TrimSpace (Token n)) (nodesAt nodes l))"

definition amendedMerge :: "Node list \<Rightarrow> string list" where
  "amendedMerge nodes =
     map (\<lambda>run. Join (concat (map (tokensAt nodes) run)) [CHR 0x0A])
       (runs (maxEndAt nodes) (lineNumbers nodes))"

section \<open>Specification-side notions for the serializer\<close>

text \<open>The number a string of decimal digits denotes.\<close>

definition digitValue :: "char \<Rightarrow> nat" where
  "digitValue c = of_char c - 48"

definition decimalValue :: "string \<Rightarrow> nat" where
  "decimalValue s = foldl (\<lambda>a c. 10 * a + digitValue c) 0 s"

text \<open>
  A line in the words of the claim: after the score a comma, after the bracketed hashes
  a comma, with no space following either.
\<close>

definition claimedLine :: "CommentSentimentResult \<Rightarrow> int \<Rightarrow> string" where
  "claimedLine result day =
     ''  '' @ formatInt day @ '': '' @ ''['' @ formatFloat4 (indexNum (EmotionsByDay result) day) @
     '','' @ ''['' @ Join (map HashString (index (entries (resCommitsByDay result)) day)) '','' @
     '']'' @ '','' @ ''\"'' @ Join (index (CommentsByDay result) day) ''|'' @ ''\"'' @ '']'' @
     ''\<newline>''"

definition claimedText :: "CommentSentimentResult \<Rightarrow> string" where
  "claimedText result = concat (map (claimedLine result) (sort (keys (EmotionsByDay result))))"

section \<open>Example inputs\<close>

text \<open>A scorer that returns a fixed list of weights, whatever the texts.\<close>

definition fixedScorer :: "float32 list \<Rightarrow> string list \<Rightarrow> unit \<Rightarrow> string + float32 list" where
  "fixedScorer ws texts session = Inr ws"

text \<open>
  Two days, stored in the map in descending order; the gap is 0.5, so the bounds of the
  deadzone are 0.25 and 0.75, both exact in \<^verbatim>\<open>float32\<close>, as are the weights below.
\<close>

definition twoDays :: CommentSentimentAnalysis where
  "twoDays = \<lparr>MinCommentLength = 20, Gap = Fin False 0.5,
     commentsByDay = Some [(7, [''gamma'']), (5, [''alpha'', ''beta'', ''delta''])],
     commitsByDay = Some [], xpather = Some \<lparr>XPath = ''//*[@roleComment]''\<rparr>\<rparr>"

definition clearWeights :: "float32 list" where
  "clearWeights = [Fin False (1/8), Fin False (1/4), Fin False (7/8), Fin False 1]"

definition boundaryWeights :: "float32 list" where
  "boundaryWeights = [Fin False (1/8), Fin False (1/4), Fin False (3/4), Fin False 1]"

text \<open>
  Scenario C of the specification: day 5 has three comments that score 0.1, 0.6 and 0.9,
  as \<^verbatim>\<open>float32\<close> values; a further day 6 has one comment that scores 0.5. Each day has one
  commit.
\<close>

definition scenarioC :: CommentSentimentAnalysis where
  "scenarioC = \<lparr>MinCommentLength = 20, Gap = Fin False 0.5,
     commentsByDay = Some [(5, [''first comment'', ''second comment'', ''third comment'']),
                           (6, [''fourth comment''])],
     commitsByDay = Some [(5, [replicate 20 0x05]), (6, [replicate 20 0x06])],
     xpather = Some \<lparr>XPath = ''//*[@roleComment]''\<rparr>\<rparr>"

definition scenarioCWeights :: "float32 list" where
  "scenarioCWeights =
     [float32_of_real 0.1, float32_of_real 0.6, float32_of_real 0.9, Fin False 0.5]"

text \<open>A configuration with both values out of range, and one whose gap is NaN.\<close>

definition tooShort :: CommentSentimentAnalysis where
  "tooShort = \<lparr>MinCommentLength = 5, Gap = Fin False (3/2), commentsByDay = Some [],
     commitsByDay = Some [], xpather = Some \<lparr>XPath = ''//*[@roleComment]''\<rparr>\<rparr>"

definition nanGap :: CommentSentimentAnalysis where
  "nanGap = \<lparr>MinCommentLength = 20, Gap = NaN,
     commentsByDay = Some [(7, [''gamma'']), (5, [''alpha'', ''beta'', ''delta''])],
     commitsByDay = Some [], xpather = Some \<lparr>XPath = ''//*[@roleComment]''\<rparr>\<rparr>"

text \<open>
  Scenario A of the specification: two comment nodes on lines 10 and 11. A change is
  modelled as the list of its nodes and the extractor returns the nodes of all changes.
\<close>

definition commentNode :: "32 word \<Rightarrow> 32 word \<Rightarrow> string \<Rightarrow> Node" where
  "commentNode fromLine toLine token =
     \<lparr>Token = token,
      StartPosition = Some \<lparr>Offset = 0, Line = fromLine, Col = 1\<rparr>,
      EndPosition = Some \<lparr>Offset = 0, Line = toLine, Col = 1\<rparr>\<rparr>"

definition scenarioA :: "Node list" where
  "scenarioA =
     [commentNode 10 10 ''this comment spans '', commentNode 11 11 ''  two lines of text'']"





text \<open>
  A node on line 10 whose end position is on line 5, followed by a node on line 11; and
  a node followed by one whose token is white space only.
\<close>

definition endsBeforeStart :: "Node list" where
  "endsBeforeStart = [commentNode 10 5 ''alpha'', commentNode 11 11 ''beta'']"

definition blankToken :: "Node list" where
  "blankToken = [commentNode 10 10 ''alpha'', commentNode 11 11 ''   '']"

text \<open>A comment that opens with a call and is spread out by runs of spaces.\<close>

definition wideComment :: "Node list" where
  "wideComment = [commentNode 3 3 ''init()      sets    up     state'']"

text \<open>A comment of 21 bytes, 12 of them letters.\<close>

definition shortOfLetters :: "Node list" where
  "shortOfLetters = [commentNode 1 1 ''abcdefghijkl 12345678'']"

text \<open>
  A result with two days, stored in descending order. The score of day 5 is 1/32, a tie
  at four decimals; the score of day 7 is the \<^verbatim>\<open>float32\<close> nearest to 0.99996.
\<close>

definition sampleResult :: CommentSentimentResult where
  "sampleResult =
     \<lparr>EmotionsByDay = [(7, float32_of_real 0.99996), (5, Fin False (1/32))],
      CommentsByDay = [(5, [''alpha'', ''beta'']), (7, [''gamma''])],
      resCommitsByDay =
        Some [(5, [[0xde, 0xad, 0xbe, 0xef, 0x00, 0x01, 0x02, 0x03, 0x04, 0x05,
                    0x06, 0x07, 0x08, 0x09, 0x0a, 0x0b, 0x0c, 0x0d, 0x0e, 0x0f],
                   replicate 20 0xff])]\<rparr>"

section \<open>Properties of float32\<close>

lemma flt_iff_not_fle: "a \<noteq> NaN \<Longrightarrow> b \<noteq> NaN \<Longrightarrow> flt a b \<longleftrightarrow> \<not> fle b a"
  by (cases a; cases b) auto

lemma roundHalfEven_le: "y \<le> of_int N \<Longrightarrow> roundHalfEven y \<le> N"
  unfolding roundHalfEven_def by (auto simp: floor_le_iff)

lemma roundHalfEven_ge: "of_int N \<le> y \<Longrightarrow> N \<le> roundHalfEven y"
  unfolding roundHalfEven_def by (auto simp: le_floor_iff) linarith+

text \<open>Rounding to the nearest integer, a tie going to the even one.\<close>

lemma roundHalfEven_nearest:
  "\<bar>y - of_int (roundHalfEven y)\<bar> \<le> 1 / 2 \<and>
   (\<bar>y - of_int (roundHalfEven y)\<bar> = 1 / 2 \<longrightarrow> even (roundHalfEven y))"
proof -
  define f where "f = \<lfloor>y\<rfloor>"
  have "of_int f \<le> y" "y < of_int f + 1" unfolding f_def by linarith+
  then show ?thesis
    unfolding roundHalfEven_def f_def [symmetric] by (auto simp: abs_if)
qed

lemma pow2_powr: "pow2 n = 2 powr (of_int n)"
proof (cases "0 \<le> n")
  case True
  then show ?thesis
    by (simp add: pow2_def powr_realpow [symmetric])
next
  case False
  then have "2 powr (of_int n) = 1 / 2 powr (of_int (- n) :: real)"
    by (simp add: powr_minus_divide)
  also have "\<dots> = 1 / 2 ^ nat (- n)"
    using False by (simp add: powr_realpow [symmetric])
  finally show ?thesis using False by (simp add: pow2_def)
qed

lemma pow2_pos: "0 < pow2 n"
  by (simp add: pow2_powr)

lemma pow2_split: "0 \<le> k - e + 23 \<Longrightarrow> pow2 k = of_int (2 ^ nat (k - e + 23)) * pow2 (e - 23)"
proof -
  assume a: "0 \<le> k - e + 23"
  have "pow2 k = pow2 (k - e + 23) * pow2 (e - 23)"
    by (simp add: pow2_powr powr_add [symmetric])
  also have "pow2 (k - e + 23) = of_int (2 ^ nat (k - e + 23))"
    using a by (simp add: pow2_def)
  finally show ?thesis .
qed

text \<open>Rounding does not cross a power of two that the format represents.\<close>

lemma rounded_bracket:
  assumes "0 \<le> k - e + 23"
  shows "x \<le> pow2 k \<Longrightarrow> of_int (roundHalfEven (x / pow2 (e - 23))) * pow2 (e - 23) \<le> pow2 k"
    and "pow2 k \<le> x \<Longrightarrow> pow2 k \<le> of_int (roundHalfEven (x / pow2 (e - 23))) * pow2 (e - 23)"
proof -
  let ?q = "pow2 (e - 23)"
  let ?N = "2 ^ nat (k - e + 23) :: int"
  have q: "0 < ?q" by (rule pow2_pos)
  have k: "pow2 k = of_int ?N * ?q" by (rule pow2_split [OF assms])
  {
    assume "x \<le> pow2 k"
    then have "x / ?q \<le> of_int ?N" using q by (simp add: k pos_divide_le_eq)
    then have "roundHalfEven (x / ?q) \<le> ?N" by (rule roundHalfEven_le)
    then have "(of_int (roundHalfEven (x / ?q)) :: real) \<le> of_int ?N" by linarith
    then show "of_int (roundHalfEven (x / ?q)) * ?q \<le> pow2 k"
      unfolding k using q by (simp only: mult_le_cancel_right_pos)
  }
  {
    assume "pow2 k \<le> x"
    then have "of_int ?N \<le> x / ?q" using q by (simp add: k pos_le_divide_eq)
    then have "?N \<le> roundHalfEven (x / ?q)" by (rule roundHalfEven_ge)
    then have "(of_int ?N :: real) \<le> of_int (roundHalfEven (x / ?q))" by linarith
    then show "pow2 k \<le> of_int (roundHalfEven (x / ?q)) * ?q"
      unfolding k using q by (simp only: mult_le_cancel_right_pos)
  }
qed

lemma expo_le_0: "x < 2 \<Longrightarrow> expo x \<le> 0"
proof -
  assume x: "x < 2"
  have n: "(127 :: nat) = Suc 126" by simp
  have "expoUp 127 x = 0"
    by (subst n) (simp only: expoUp.simps x if_True)
  then show ?thesis by (simp add: expo_def)
qed

lemma round32_small:
  assumes "0 \<le> x" "x < 2"
  shows "\<exists>r. round32 s x = Fin s r \<and> 0 \<le> r \<and>
             (x \<le> 1 / 2 \<longrightarrow> r \<le> 1 / 2) \<and> (1 / 2 \<le> x \<longrightarrow> 1 / 2 \<le> r) \<and>
             (x \<le> 1 \<longrightarrow> r \<le> 1) \<and> (1 \<le> x \<longrightarrow> 1 \<le> r) \<and> r \<le> 2"
proof -
  let ?e = "expo x"
  let ?r = "of_int (roundHalfEven (x / pow2 (?e - 23))) * pow2 (?e - 23)"
  have e: "?e \<le> 0" using assms(2) by (rule expo_le_0)
  then have a: "0 \<le> -1 - ?e + 23" "0 \<le> 0 - ?e + 23" "0 \<le> 1 - ?e + 23" by simp_all
  have p: "pow2 (-1) = 1 / 2" "pow2 0 = 1" "pow2 1 = 2" by (simp_all add: pow2_def)
  have "x \<le> pow2 1" using assms(2) by (simp add: pow2_def)
  then have r1: "?r \<le> pow2 1" by (rule rounded_bracket(1) [OF a(3)])
  have "0 \<le> x / pow2 (?e - 23)" using assms(1) pow2_pos [of "?e - 23"] by simp
  then have "0 \<le> roundHalfEven (x / pow2 (?e - 23))"
    using roundHalfEven_ge [of 0] by simp
  then have r0: "0 \<le> ?r" using pow2_pos [of "?e - 23"] by simp
  have "pow2 1 < pow2 128" by (simp add: pow2_def)
  with r1 have "\<not> pow2 128 \<le> ?r" by linarith
  then have "round32 s x = Fin s ?r" by (simp add: round32_def Let_def)
  with r0 r1 rounded_bracket [OF a(1), of x] rounded_bracket [OF a(2), of x]
  show ?thesis unfolding p by blast
qed

text \<open>
  For a gap in [0,1) the two bounds of the deadzone are finite, the lower one at most
  0.5 and the upper one at least 0.5.
\<close>

lemma bounds_of_valid_gap:
  assumes lo: "fle (Fin False 0) gap" and hi: "flt gap (Fin False 1)"
  shows "\<exists>l h. lowerBound gap = Fin False l \<and> upperBound gap = Fin False h \<and>
               0 \<le> l \<and> l \<le> 1 / 2 \<and> 1 / 2 \<le> h \<and> h \<le> 1"
proof -
  from lo hi obtain s m where g: "gap = Fin s m"
    by (cases gap) auto
  define v where "v = signedVal s m"
  from lo hi have v: "0 \<le> v" "v < 1" by (simp_all add: g v_def signedVal_def)
  have x1: "signedVal False 1 + signedVal (\<not> s) m = 1 - v"
    by (simp add: v_def signedVal_def)
  have x2: "signedVal False 1 + signedVal s m = 1 + v"
    by (simp add: v_def signedVal_def)
  have "fsub (Fin False 1) gap =
        (if 1 - v = 0 then Fin (False \<and> \<not> s) 0 else round32 (1 - v < 0) \<bar>1 - v\<bar>)"
    by (simp only: fsub_def g fneg.simps fadd.simps x1)
  then have "fsub (Fin False 1) gap = round32 False (1 - v)"
    using v by simp
  moreover obtain r where r: "round32 False (1 - v) = Fin False r" "0 \<le> r" "r \<le> 1"
    using round32_small [of "1 - v" False] v by auto
  ultimately have "lowerBound gap = round32 False (r / 2)"
    by (simp add: lowerBound_def)
  moreover obtain l where l: "round32 False (r / 2) = Fin False l" "0 \<le> l" "l \<le> 1 / 2"
    using round32_small [of "r / 2" False] r by auto
  ultimately have low: "lowerBound gap = Fin False l" by simp
  have "fadd (Fin False 1) gap =
        (if 1 + v = 0 then Fin (False \<and> s) 0 else round32 (1 + v < 0) \<bar>1 + v\<bar>)"
    by (simp only: g fadd.simps x2)
  then have "fadd (Fin False 1) gap = round32 False (1 + v)"
    using v by simp
  moreover obtain r' where r': "round32 False (1 + v) = Fin False r'" "1 \<le> r'" "r' \<le> 2"
    using round32_small [of "1 + v" False] v by auto
  ultimately have "upperBound gap = round32 False (r' / 2)"
    by (simp add: upperBound_def)
  moreover obtain h where h: "round32 False (r' / 2) = Fin False h" "1 / 2 \<le> h" "h \<le> 1"
    using round32_small [of "r' / 2" False] r' by auto
  ultimately have up: "upperBound gap = Fin False h" by simp
  from low up l h show ?thesis by blast
qed

section \<open>Properties of Finalize\<close>

lemma dayLoop_ok:
  "pos + length cs \<le> length weights \<Longrightarrow>
   dayLoop gap weights cs pos s acc =
     Inr (pos + length cs,
          foldl fadd s (map snd (keptOf gap cs (drop pos weights))),
          acc @ map fst (keptOf gap cs (drop pos weights)))"
proof (induction cs arbitrary: pos s acc)
  case Nil
  then show ?case by (simp add: keptOf_def)
next
  case (Cons c cs)
  from Cons.prems have lt: "pos < length weights" by simp
  then have d: "drop pos weights = weights ! pos # drop (Suc pos) weights"
    by (simp add: Cons_nth_drop_Suc)
  from Cons.prems have "Suc pos + length cs \<le> length weights" by simp
  note IH = Cons.IH [OF this]
  show ?case using lt
    by (simp add: IH d outside_def keptOf_def lowerBound_def upperBound_def)
qed

lemma loopPost_step:
  assumes post: "loopPost sent weights ds (pos + length (dayComments sent d)) start r"
    and notin: "d \<notin> set ds"
    and rc: "resCommitsByDay start = resCommitsByDay result"
    and cs: "\<And>k. map_of (CommentsByDay start) k =
              (if k = d \<and> keptAt sent weights pos d \<noteq> []
               then Some (map fst (keptAt sent weights pos d))
               else map_of (CommentsByDay result) k)"
    and es: "\<And>k. map_of (EmotionsByDay start) k =
              (if k = d \<and> keptAt sent weights pos d \<noteq> []
               then Some (fmean (map snd (keptAt sent weights pos d)))
               else map_of (EmotionsByDay result) k)"
  shows "loopPost sent weights (d # ds) pos result r"
proof -
  have b0: "before sent (d # ds) d = 0" by (simp add: before_def)
  have bk: "pos + before sent (d # ds) k = pos + length (dayComments sent d) + before sent ds k"
    if "k \<noteq> d" for k using that by (simp add: before_def)
  have "map_of (CommentsByDay r) k =
        (if k \<in> set (d # ds) \<and> keptAt sent weights (pos + before sent (d # ds) k) k \<noteq> []
         then Some (map fst (keptAt sent weights (pos + before sent (d # ds) k) k))
         else map_of (CommentsByDay result) k)" for k
  proof (cases "k = d")
    case True
    then show ?thesis using post notin cs [of d] by (simp add: loopPost_def b0)
  next
    case False
    then show ?thesis using post cs [of k] unfolding bk [OF False] by (simp add: loopPost_def)
  qed
  moreover have "map_of (EmotionsByDay r) k =
        (if k \<in> set (d # ds) \<and> keptAt sent weights (pos + before sent (d # ds) k) k \<noteq> []
         then Some (fmean (map snd (keptAt sent weights (pos + before sent (d # ds) k) k)))
         else map_of (EmotionsByDay result) k)" for k
  proof (cases "k = d")
    case True
    then show ?thesis using post notin es [of d] by (simp add: loopPost_def b0)
  next
    case False
    then show ?thesis using post es [of k] unfolding bk [OF False] by (simp add: loopPost_def)
  qed
  moreover have "resCommitsByDay r = resCommitsByDay result"
    using post rc by (simp add: loopPost_def)
  ultimately show ?thesis unfolding loopPost_def by blast
qed

lemma daysLoop_ok:
  "distinct ds \<Longrightarrow> pos + length (concat (map (dayComments sent) ds)) \<le> length weights \<Longrightarrow>
   \<exists>r. daysLoop sent weights ds pos result = Inr r \<and> loopPost sent weights ds pos result r"
proof (induction ds arbitrary: pos result)
  case Nil
  then show ?case by (simp add: loopPost_def)
next
  case (Cons d ds)
  let ?cs = "dayComments sent d"
  let ?kept = "keptAt sent weights pos d"
  from Cons.prems have le: "pos + length ?cs \<le> length weights" by simp
  have dl: "dayLoop (Gap sent) weights (index (entries (commentsByDay sent)) d) pos
            (Fin False 0) [] =
            Inr (pos + length ?cs, fsum (map snd ?kept), map fst ?kept)"
    using dayLoop_ok [OF le, of "Gap sent" "Fin False 0" "[]"]
    by (simp add: dayComments_def keptAt_def fsum_def)
  from Cons.prems have dist: "distinct ds" and notin: "d \<notin> set ds" by simp_all
  from Cons.prems have le2: "(pos + length ?cs) + length (concat (map (dayComments sent) ds)) \<le> length weights"
    by simp
  show ?case
  proof (cases "?kept = []")
    case True
    from Cons.IH [OF dist le2, of result] obtain r where
      r: "daysLoop sent weights ds (pos + length ?cs) result = Inr r"
         "loopPost sent weights ds (pos + length ?cs) result r"
      by blast
    have "daysLoop sent weights (d # ds) pos result = Inr r"
      using dl True r(1) by simp
    moreover have "loopPost sent weights (d # ds) pos result r"
      using r(2) notin by (rule loopPost_step) (simp_all add: True)
    ultimately show ?thesis by blast
  next
    case False
    let ?res = "result\<lparr>EmotionsByDay := AList.update d (fdiv (fsum (map snd ?kept)) (float32_of_int (int (length (map fst ?kept))))) (EmotionsByDay result),
                       CommentsByDay := AList.update d (map fst ?kept) (CommentsByDay result)\<rparr>"
    from Cons.IH [OF dist le2, of ?res] obtain r where
      r: "daysLoop sent weights ds (pos + length ?cs) ?res = Inr r"
         "loopPost sent weights ds (pos + length ?cs) ?res r"
      by blast
    have "daysLoop sent weights (d # ds) pos result = Inr r"
      using dl False r(1) by simp
    moreover have "loopPost sent weights (d # ds) pos result r"
      using r(2) notin by (rule loopPost_step) (simp_all add: False update_conv' fmean_def)
    ultimately show ?thesis by blast
  qed
qed


lemma flatTexts_concat: "flatTexts sent = concat (map (dayComments sent) (sortedDays sent))"
proof -
  have "foldl (\<lambda>texts key. texts @ f key) acc ds = acc @ concat (map f ds)"
    for f :: "int \<Rightarrow> string list" and acc ds
    by (induction ds arbitrary: acc) simp_all
  then show ?thesis by (simp add: flatTexts_def dayComments_def [abs_def])
qed

lemma takeWhile_sorted_less:
  "sorted ds \<Longrightarrow> distinct ds \<Longrightarrow> k \<in> set ds \<Longrightarrow>
   takeWhile (\<lambda>d. d \<noteq> k) ds = filter (\<lambda>d. d < k) (ds :: int list)"
proof (induction ds)
  case Nil
  then show ?case by simp
next
  case (Cons d ds)
  show ?case
  proof (cases "d = k")
    case True
    with Cons.prems have "\<forall>x\<in>set ds. \<not> x < k" by auto
    then have "filter (\<lambda>d. d < k) ds = []" by (simp add: filter_empty_conv)
    with True show ?thesis by simp
  next
    case False
    with Cons.prems have "k \<in> set ds" "d < k" by auto
    with Cons show ?thesis by simp
  qed
qed

lemma concat_split_at:
  "k \<in> set ds \<Longrightarrow>
   drop (length (concat (map f (takeWhile (\<lambda>d. d \<noteq> k) ds)))) (concat (map f ds)) =
     f k @ concat (map f (tl (dropWhile (\<lambda>d. d \<noteq> k) ds)))"
  by (induction ds) auto

lemma zip_take_length: "zip xs (take (length xs) ys) = zip xs ys"
proof (induction xs arbitrary: ys)
  case Nil
  then show ?case by simp
next
  case (Cons x xs)
  then show ?case by (cases ys) simp_all
qed

lemma notin_keys_iff: "k \<notin> set (keys m) \<longleftrightarrow> map_of m k = None"
  by (simp add: keys_def map_of_eq_None_iff)

lemma index_notin: "k \<notin> set (keys m) \<Longrightarrow> index m k = []"
  by (simp add: index_def keys_def map_of_eq_None_iff [THEN iffD2])

lemma dayComments_notin: "k \<notin> set (sortedDays sent) \<Longrightarrow> dayComments sent k = []"
  by (simp add: dayComments_def sortedDays_def index_notin)

lemma dayPairs_eq:
  assumes "distinct (keys (entries (commentsByDay sent)))"
  shows "dayPairs sent weights k =
         zip (dayComments sent k) (drop (dayStart sent k) weights)"
proof (cases "k \<in> set (sortedDays sent)")
  case False
  then show ?thesis by (simp add: dayPairs_def dayComments_notin)
next
  case True
  have sd: "sorted (sortedDays sent)" "distinct (sortedDays sent)"
    using assms by (simp_all add: sortedDays_def)
  have st: "dayStart sent k =
            length (concat (map (dayComments sent) (takeWhile (\<lambda>d. d \<noteq> k) (sortedDays sent))))"
    by (simp add: dayStart_def takeWhile_sorted_less [OF sd True])
  have "take (length (dayComments sent k)) (drop (dayStart sent k) (flatTexts sent)) = dayComments sent k"
    unfolding st flatTexts_concat concat_split_at [OF True] by simp
  then show ?thesis
    by (simp add: dayPairs_def drop_zip take_zip zip_take_length)
qed

lemma keptPairs_keptAt:
  assumes "distinct (keys (entries (commentsByDay sent)))" and "k \<in> set (sortedDays sent)"
  shows "keptAt sent weights (0 + before sent (sortedDays sent) k) k = keptPairs sent weights k"
proof -
  have sd: "sorted (sortedDays sent)" "distinct (sortedDays sent)"
    using assms by (simp_all add: sortedDays_def)
  show ?thesis
    by (simp add: keptAt_def keptOf_def keptPairs_def dayPairs_eq [OF assms(1)] outside_def
        before_def dayStart_def takeWhile_sorted_less [OF sd assms(2)])
qed

lemma keptPairs_notin: "k \<notin> set (sortedDays sent) \<Longrightarrow> keptPairs sent weights k = []"
  by (simp add: keptPairs_def dayPairs_def dayComments_notin)

lemma Finalize_ok:
  assumes dist: "distinct (keys (entries (commentsByDay sent)))"
    and opn: "OpenSession = Inr session"
    and ev: "Evaluate (flatTexts sent) session = Inr weights"
    and len: "length (flatTexts sent) \<le> length weights"
  shows "\<exists>r. Finalize OpenSession Evaluate sent = (Inr r, [flatTexts sent]) \<and>
             resCommitsByDay r = commitsByDay sent \<and>
             (\<forall>k. map_of (CommentsByDay r) k =
                (if keptPairs sent weights k = [] then None
                 else Some (map fst (keptPairs sent weights k)))) \<and>
             (\<forall>k. map_of (EmotionsByDay r) k =
                (if keptPairs sent weights k = [] then None
                 else Some (fmean (map snd (keptPairs sent weights k)))))"
proof -
  let ?init = "\<lparr>EmotionsByDay = [], CommentsByDay = [], resCommitsByDay = commitsByDay sent\<rparr>"
  have sd: "distinct (sortedDays sent)" using dist by (simp add: sortedDays_def)
  have "0 + length (concat (map (dayComments sent) (sortedDays sent))) \<le> length weights"
    using len by (simp add: flatTexts_concat)
  from daysLoop_ok [OF sd this, of ?init] obtain r where
    r: "daysLoop sent weights (sortedDays sent) 0 ?init = Inr r"
       "loopPost sent weights (sortedDays sent) 0 ?init r" by blast
  have fin: "Finalize OpenSession Evaluate sent = (Inr r, [flatTexts sent])"
    using opn ev r(1) by (simp add: Finalize_def Let_def)
  have c: "map_of (CommentsByDay r) k =
           (if keptPairs sent weights k = [] then None else Some (map fst (keptPairs sent weights k)))" for k
  proof (cases "k \<in> set (sortedDays sent)")
    case True
    then show ?thesis using r(2) keptPairs_keptAt [OF dist True, of weights]
      by (simp add: loopPost_def)
  next
    case False
    then show ?thesis using r(2) by (simp add: loopPost_def keptPairs_notin)
  qed
  have e: "map_of (EmotionsByDay r) k =
           (if keptPairs sent weights k = [] then None else Some (fmean (map snd (keptPairs sent weights k))))" for k
  proof (cases "k \<in> set (sortedDays sent)")
    case True
    then show ?thesis using r(2) keptPairs_keptAt [OF dist True, of weights]
      by (simp add: loopPost_def)
  next
    case False
    then show ?thesis using r(2) by (simp add: loopPost_def keptPairs_notin)
  qed
  have "resCommitsByDay r = commitsByDay sent" using r(2) by (simp add: loopPost_def)
  with fin c e show ?thesis by blast
qed


lemma day_slice:
  assumes "distinct (keys (entries (commentsByDay sent)))"
  shows "take (length (dayComments sent k)) (drop (dayStart sent k) (flatTexts sent)) =
         dayComments sent k"
proof (cases "k \<in> set (sortedDays sent)")
  case False
  then show ?thesis by (simp add: dayComments_notin)
next
  case True
  have sd: "sorted (sortedDays sent)" "distinct (sortedDays sent)"
    using assms by (simp_all add: sortedDays_def)
  have st: "dayStart sent k =
            length (concat (map (dayComments sent) (takeWhile (\<lambda>d. d \<noteq> k) (sortedDays sent))))"
    by (simp add: dayStart_def takeWhile_sorted_less [OF sd True])
  show ?thesis
    unfolding st flatTexts_concat concat_split_at [OF True] by simp
qed

lemma day_slice_nth:
  assumes dist: "distinct (keys (entries (commentsByDay sent)))"
    and j: "j < length (dayComments sent k)"
  shows "dayStart sent k + j < length (flatTexts sent) \<and>
         flatTexts sent ! (dayStart sent k + j) = dayComments sent k ! j"
proof -
  let ?n = "length (dayComments sent k)"
  let ?sl = "take ?n (drop (dayStart sent k) (flatTexts sent))"
  have eq: "?sl = dayComments sent k" by (rule day_slice [OF dist])
  then have "length ?sl = ?n" by simp
  with j have le: "dayStart sent k + ?n \<le> length (flatTexts sent)" by simp
  with j have lt: "dayStart sent k + j < length (flatTexts sent)" by simp
  have "?sl ! j = flatTexts sent ! (dayStart sent k + j)"
    using j le by simp
  with eq lt show ?thesis by simp
qed

lemma twoDays_distinct: "distinct (keys (entries (commentsByDay twoDays)))"
  by (simp add: twoDays_def keys_def entries_def)

lemma twoDays_flatTexts: "flatTexts twoDays = [''alpha'', ''beta'', ''delta'', ''gamma'']"
  by code_simp

lemma twoDays_scorer: "fixedScorer ws (flatTexts twoDays) () = Inr ws"
  by (simp add: fixedScorer_def)

lemma twoDays_valid_gap:
  "fle (Fin False 0) (Gap twoDays)" "flt (Gap twoDays) (Fin False 1)"
  by (simp_all add: twoDays_def signedVal_def)

subsection \<open>The deadzone test (C1)\<close>

text \<open>
  C1, as stated, fails: the test of line 211 keeps a pair only when its weight is strictly
  below the lower bound or strictly above the upper bound, so a weight exactly on either
  bound is discarded, not retained. With gap 0.5 the bounds are 0.25 and 0.75, computed
  without rounding; the weights 1/4 and 3/4 of \<open>beta\<close> and \<open>delta\<close> lie on them and both
  comments are dropped from day 5.
\<close>

theorem Finalize_boundary_counterexample:
  "lowerBound (Gap twoDays) = Fin False (1/4) \<and> upperBound (Gap twoDays) = Fin False (3/4) \<and>
   dayPairs twoDays boundaryWeights 5 =
     [(''alpha'', Fin False (1/8)), (''beta'', Fin False (1/4)), (''delta'', Fin False (3/4))] \<and>
   Finalize (Inr ()) (fixedScorer boundaryWeights) twoDays =
     (Inr \<lparr>EmotionsByDay = [(5, Fin False (1/8)), (7, Fin False 1)],
           CommentsByDay = [(5, [''alpha'']), (7, [''gamma''])],
           resCommitsByDay = Some []\<rparr>,
      [[''alpha'', ''beta'', ''delta'', ''gamma'']])"
proof -
  have "lowerBound (Gap twoDays) = Fin False (1/4)" by code_simp
  moreover have "upperBound (Gap twoDays) = Fin False (3/4)" by code_simp
  moreover have "dayPairs twoDays boundaryWeights 5 =
     [(''alpha'', Fin False (1/8)), (''beta'', Fin False (1/4)), (''delta'', Fin False (3/4))]"
    by code_simp
  moreover have "Finalize (Inr ()) (fixedScorer boundaryWeights) twoDays =
     (Inr \<lparr>EmotionsByDay = [(5, Fin False (1/8)), (7, Fin False 1)],
           CommentsByDay = [(5, [''alpha'']), (7, [''gamma''])],
           resCommitsByDay = Some []\<rparr>,
      [[''alpha'', ''beta'', ''delta'', ''gamma'']])"
    by code_simp
  ultimately show ?thesis by blast
qed

text \<open>
  C1, amended: for every valid gap in [0,1) and every (comment, score) pair of a day, let
  the two bounds be the \<^verbatim>\<open>float32\<close> values of \<open>0.5 * (1 - gap)\<close> and \<open>0.5 * (1 + gap)\<close> as line
  211 computes them; the lower is at most the upper. A pair is excluded from the day's
  aggregate when its score lies in the closed interval between the two bounds, the bounds
  included (or is NaN), and is retained otherwise, that is when the score is strictly
  below the lower or strictly above the upper bound: the retained comments of a day are
  those of the pairs outside the closed interval, in order, the day's score is the
  \<^verbatim>\<open>float32\<close> mean of their scores, and the day is absent when no pair is outside.
\<close>

theorem Finalize_deadzone_closed:
  assumes dist: "distinct (keys (entries (commentsByDay sent)))"
    and opn: "OpenSession = Inr session"
    and ev: "Evaluate (flatTexts sent) session = Inr weights"
    and len: "length (flatTexts sent) \<le> length weights"
    and gap0: "fle (Fin False 0) (Gap sent)"
    and gap1: "flt (Gap sent) (Fin False 1)"
  shows "fle (lowerBound (Gap sent)) (upperBound (Gap sent)) \<and>
         (\<exists>r. fst (Finalize OpenSession Evaluate sent) = Inr r \<and>
           (\<forall>day. map_of (CommentsByDay r) day =
                    (let kept = filter (\<lambda>p. snd p \<noteq> NaN \<and>
                                            \<not> (fle (lowerBound (Gap sent)) (snd p) \<and>
                                               fle (snd p) (upperBound (Gap sent))))
                                  (dayPairs sent weights day)
                     in if kept = [] then None else Some (map fst kept)) \<and>
                  map_of (EmotionsByDay r) day =
                    (let kept = filter (\<lambda>p. snd p \<noteq> NaN \<and>
                                            \<not> (fle (lowerBound (Gap sent)) (snd p) \<and>
                                               fle (snd p) (upperBound (Gap sent))))
                                  (dayPairs sent weights day)
                     in if kept = [] then None else Some (fmean (map snd kept)))))"
proof -
  from bounds_of_valid_gap [OF gap0 gap1] obtain l h where
    b: "lowerBound (Gap sent) = Fin False l" "upperBound (Gap sent) = Fin False h"
       "l \<le> 1 / 2" "1 / 2 \<le> h"
    by blast
  then have ord: "fle (lowerBound (Gap sent)) (upperBound (Gap sent))"
    by (simp add: signedVal_def)
  have test: "(flt w (lowerBound (Gap sent)) \<or> flt (upperBound (Gap sent)) w) \<longleftrightarrow>
              (w \<noteq> NaN \<and> \<not> (fle (lowerBound (Gap sent)) w \<and> fle w (upperBound (Gap sent))))"
    for w
  proof (cases "w = NaN")
    case True
    then show ?thesis by (simp add: b)
  next
    case False
    then show ?thesis
      using flt_iff_not_fle [of w "lowerBound (Gap sent)"]
        flt_iff_not_fle [of "upperBound (Gap sent)" w]
      by (simp add: b)
  qed
  have k: "filter (\<lambda>p. snd p \<noteq> NaN \<and>
                       \<not> (fle (lowerBound (Gap sent)) (snd p) \<and>
                          fle (snd p) (upperBound (Gap sent))))
             (dayPairs sent weights day) = keptPairs sent weights day" for day
    unfolding keptPairs_def by (rule filter_cong) (simp_all add: test)
  from Finalize_ok [where Evaluate = Evaluate, OF dist opn ev len] obtain r where
    "Finalize OpenSession Evaluate sent = (Inr r, [flatTexts sent])"
    "\<forall>k. map_of (CommentsByDay r) k =
                (if keptPairs sent weights k = [] then None
                 else Some (map fst (keptPairs sent weights k)))"
    "\<forall>k. map_of (EmotionsByDay r) k =
                (if keptPairs sent weights k = [] then None
                 else Some (fmean (map snd (keptPairs sent weights k))))"
    by blast
  then have "\<exists>r. fst (Finalize OpenSession Evaluate sent) = Inr r \<and>
           (\<forall>day. map_of (CommentsByDay r) day =
                    (if keptPairs sent weights day = [] then None
                     else Some (map fst (keptPairs sent weights day))) \<and>
                  map_of (EmotionsByDay r) day =
                    (if keptPairs sent weights day = [] then None
                     else Some (fmean (map snd (keptPairs sent weights day)))))"
    by auto
  with ord show ?thesis unfolding k Let_def by blast
qed

theorem Finalize_deadzone_closed_witness:
  "distinct (keys (entries (commentsByDay twoDays))) \<and>
   fixedScorer boundaryWeights (flatTexts twoDays) () = Inr boundaryWeights \<and>
   length (flatTexts twoDays) \<le> length boundaryWeights \<and>
   fle (Fin False 0) (Gap twoDays) \<and> flt (Gap twoDays) (Fin False 1) \<and>
   fle (lowerBound (Gap twoDays)) (upperBound (Gap twoDays)) \<and>
   (\<exists>r. fst (Finalize (Inr ()) (fixedScorer boundaryWeights) twoDays) = Inr r \<and>
        map_of (CommentsByDay r) 5 = Some [''alpha''] \<and>
        map_of (EmotionsByDay r) 5 = Some (Fin False (1/8)))"
proof -
  have len: "length (flatTexts twoDays) \<le> length boundaryWeights"
    by (simp add: twoDays_flatTexts boundaryWeights_def)
  have kept: "filter (\<lambda>p. snd p \<noteq> NaN \<and>
                          \<not> (fle (lowerBound (Gap twoDays)) (snd p) \<and>
                             fle (snd p) (upperBound (Gap twoDays))))
                (dayPairs twoDays boundaryWeights 5) = [(''alpha'', Fin False (1/8))]"
    by code_simp
  have m: "fmean [Fin False (1/8)] = Fin False (1/8)" by code_simp
  note t = Finalize_deadzone_closed [where OpenSession = "Inr ()" and session = "()"
      and Evaluate = "fixedScorer boundaryWeights", OF twoDays_distinct refl twoDays_scorer len
      twoDays_valid_gap]
  from t obtain r where
    r: "fst (Finalize (Inr ()) (fixedScorer boundaryWeights) twoDays) = Inr r"
    and mp: "\<forall>day. map_of (CommentsByDay r) day =
                    (let kept = filter (\<lambda>p. snd p \<noteq> NaN \<and>
                                            \<not> (fle (lowerBound (Gap twoDays)) (snd p) \<and>
                                               fle (snd p) (upperBound (Gap twoDays))))
                                  (dayPairs twoDays boundaryWeights day)
                     in if kept = [] then None else Some (map fst kept)) \<and>
                  map_of (EmotionsByDay r) day =
                    (let kept = filter (\<lambda>p. snd p \<noteq> NaN \<and>
                                            \<not> (fle (lowerBound (Gap twoDays)) (snd p) \<and>
                                               fle (snd p) (upperBound (Gap twoDays))))
                                  (dayPairs twoDays boundaryWeights day)
                     in if kept = [] then None else Some (fmean (map snd kept)))"
    by blast
  from spec [OF mp, of 5] have "map_of (CommentsByDay r) 5 = Some [''alpha''] \<and>
        map_of (EmotionsByDay r) 5 = Some (Fin False (1/8))"
    unfolding kept Let_def by (simp add: m)
  with r len twoDays_distinct twoDays_scorer [of boundaryWeights] twoDays_valid_gap
    t [THEN conjunct1]
  show ?thesis by blast
qed

text \<open>
  The bounds are rounded: for the gap \<^verbatim>\<open>float32(0.2)\<close> the upper bound of line 211 is
  \<^verbatim>\<open>float32(0.6)\<close>, which is above the exact value of \<open>0.5 * (1 + gap)\<close>; a score of
  \<^verbatim>\<open>float32(0.6)\<close> is on the bound and its pair is discarded.
\<close>

lemma upperBound_rounded:
  "float32_of_real 0.2 = Fin False (13421773/67108864) \<and>
   upperBound (float32_of_real 0.2) = float32_of_real 0.6 \<and>
   float32_of_real 0.6 = Fin False (5033165/8388608) \<and>
   (1/2) * (1 + 13421773/67108864) < (5033165/8388608 :: real) \<and>
   \<not> flt (upperBound (float32_of_real 0.2)) (float32_of_real 0.6)"
proof -
  have "float32_of_real 0.2 = Fin False (13421773/67108864)" by code_simp
  moreover have "upperBound (float32_of_real 0.2) = float32_of_real 0.6" by code_simp
  moreover have "float32_of_real 0.6 = Fin False (5033165/8388608)" by code_simp
  moreover have "(1/2) * (1 + 13421773/67108864) < (5033165/8388608 :: real)" by simp
  moreover have "\<not> flt (upperBound (float32_of_real 0.2)) (float32_of_real 0.6)" by code_simp
  ultimately show ?thesis by blast
qed

subsection \<open>The day's aggregate (C3)\<close>

text \<open>
  C3, as stated, fails in two places. A day without a surviving pair is absent from
  \<open>EmotionsByDay\<close> and \<open>CommentsByDay\<close> but stays a key of the third map of the result,
  \<open>commitsByDay\<close>, which is handed through from the configuration: day 6 below. And the
  score of a day is computed in \<^verbatim>\<open>float32\<close>: for day 5 the kept scores are the \<^verbatim>\<open>float32\<close>
  values of 0.1 and 0.9, their rounded sum is 1 and the result is 0.5, which is not the
  arithmetic mean of the two kept scores.
\<close>

theorem Finalize_day_aggregate_counterexample:
  "scenarioCWeights =
     [Fin False (13421773/134217728), Fin False (5033165/8388608),
      Fin False (7549747/8388608), Fin False (1/2)] \<and>
   keptPairs scenarioC scenarioCWeights 5 =
     [(''first comment'', Fin False (13421773/134217728)),
      (''third comment'', Fin False (7549747/8388608))] \<and>
   keptPairs scenarioC scenarioCWeights 6 = [] \<and>
   Finalize (Inr ()) (fixedScorer scenarioCWeights) scenarioC =
     (Inr \<lparr>EmotionsByDay = [(5, Fin False (1/2))],
           CommentsByDay = [(5, [''first comment'', ''third comment''])],
           resCommitsByDay = Some [(5, [replicate 20 0x05]), (6, [replicate 20 0x06])]\<rparr>,
      [[''first comment'', ''second comment'', ''third comment'', ''fourth comment'']]) \<and>
   (13421773/134217728 + 7549747/8388608) / 2 \<noteq> (1/2 :: real)"
proof -
  have "scenarioCWeights =
     [Fin False (13421773/134217728), Fin False (5033165/8388608),
      Fin False (7549747/8388608), Fin False (1/2)]"
    by code_simp
  moreover have "keptPairs scenarioC scenarioCWeights 5 =
     [(''first comment'', Fin False (13421773/134217728)),
      (''third comment'', Fin False (7549747/8388608))]"
    by code_simp
  moreover have "keptPairs scenarioC scenarioCWeights 6 = []"
    by code_simp
  moreover have "Finalize (Inr ()) (fixedScorer scenarioCWeights) scenarioC =
     (Inr \<lparr>EmotionsByDay = [(5, Fin False (1/2))],
           CommentsByDay = [(5, [''first comment'', ''third comment''])],
           resCommitsByDay = Some [(5, [replicate 20 0x05]), (6, [replicate 20 0x06])]\<rparr>,
      [[''first comment'', ''second comment'', ''third comment'', ''fourth comment'']])"
    by code_simp
  moreover have "(13421773/134217728 + 7549747/8388608) / 2 \<noteq> (1/2 :: real)"
    by simp
  ultimately show ?thesis by blast
qed

text \<open>
  C3, amended: for every day bucket of the accumulated state, when no (comment, score)
  pair of the day passes the deadzone test the day is absent from the two maps the
  reducer builds, \<open>EmotionsByDay\<close> and \<open>CommentsByDay\<close>; otherwise the day maps to the
  \<^verbatim>\<open>float32\<close> mean of exactly the kept scores (the kept scores added in order, each
  addition rounded, and the sum divided by their count, rounded) and to exactly the kept
  comments, in their original order. The third map, \<open>commitsByDay\<close>, is the configured
  one, whatever the scores.
\<close>

theorem Finalize_day_aggregate:
  assumes dist: "distinct (keys (entries (commentsByDay sent)))"
    and opn: "OpenSession = Inr session"
    and ev: "Evaluate (flatTexts sent) session = Inr weights"
    and len: "length (flatTexts sent) \<le> length weights"
  shows "\<exists>r. fst (Finalize OpenSession Evaluate sent) = Inr r \<and>
           resCommitsByDay r = commitsByDay sent \<and>
           (\<forall>day \<in> set (keys (entries (commentsByDay sent))).
              if keptPairs sent weights day = []
              then day \<notin> set (keys (EmotionsByDay r)) \<and> day \<notin> set (keys (CommentsByDay r))
              else map_of (EmotionsByDay r) day =
                     Some (fdiv (foldl fadd (Fin False 0) (map snd (keptPairs sent weights day)))
                             (float32_of_int (int (length (keptPairs sent weights day))))) \<and>
                   map_of (CommentsByDay r) day = Some (map fst (keptPairs sent weights day)))"
proof -
  from Finalize_ok [where Evaluate = Evaluate, OF dist opn ev len] obtain r where
    r: "Finalize OpenSession Evaluate sent = (Inr r, [flatTexts sent])"
    "resCommitsByDay r = commitsByDay sent"
    "\<forall>k. map_of (CommentsByDay r) k =
                (if keptPairs sent weights k = [] then None
                 else Some (map fst (keptPairs sent weights k)))"
    "\<forall>k. map_of (EmotionsByDay r) k =
                (if keptPairs sent weights k = [] then None
                 else Some (fmean (map snd (keptPairs sent weights k))))"
    by blast
  then show ?thesis by (simp add: fmean_def fsum_def notin_keys_iff)
qed

theorem Finalize_day_aggregate_witness:
  "distinct (keys (entries (commentsByDay scenarioC))) \<and>
   fixedScorer scenarioCWeights (flatTexts scenarioC) () = Inr scenarioCWeights \<and>
   length (flatTexts scenarioC) \<le> length scenarioCWeights \<and>
   5 \<in> set (keys (entries (commentsByDay scenarioC))) \<and>
   6 \<in> set (keys (entries (commentsByDay scenarioC))) \<and>
   (\<exists>r. fst (Finalize (Inr ()) (fixedScorer scenarioCWeights) scenarioC) = Inr r \<and>
        resCommitsByDay r = Some [(5, [replicate 20 0x05]), (6, [replicate 20 0x06])] \<and>
        map_of (EmotionsByDay r) 5 = Some (Fin False (1/2)) \<and>
        map_of (CommentsByDay r) 5 = Some [''first comment'', ''third comment''] \<and>
        6 \<notin> set (keys (EmotionsByDay r)) \<and> 6 \<notin> set (keys (CommentsByDay r)))"
proof -
  have kp: "keptPairs scenarioC scenarioCWeights 5 =
              [(''first comment'', Fin False (13421773/134217728)),
               (''third comment'', Fin False (7549747/8388608))]"
    "keptPairs scenarioC scenarioCWeights 6 = []"
    by code_simp code_simp
  have ne: "keptPairs scenarioC scenarioCWeights 5 \<noteq> []"
    unfolding kp by simp
  have mn: "fdiv (foldl fadd (Fin False 0) (map snd (keptPairs scenarioC scenarioCWeights 5)))
              (float32_of_int (int (length (keptPairs scenarioC scenarioCWeights 5)))) =
            Fin False (1/2)"
    by code_simp
  have cs: "map fst (keptPairs scenarioC scenarioCWeights 5) =
            [''first comment'', ''third comment'']"
    unfolding kp by simp
  have h1: "distinct (keys (entries (commentsByDay scenarioC)))"
    and h5: "5 \<in> set (keys (entries (commentsByDay scenarioC)))"
    and h6: "6 \<in> set (keys (entries (commentsByDay scenarioC)))"
    and cm: "commitsByDay scenarioC = Some [(5, [replicate 20 0x05]), (6, [replicate 20 0x06])]"
    by (simp_all add: scenarioC_def keys_def entries_def)
  have h2: "fixedScorer scenarioCWeights (flatTexts scenarioC) () = Inr scenarioCWeights"
    by (simp add: fixedScorer_def)
  have h3: "length (flatTexts scenarioC) \<le> length scenarioCWeights"
    by code_simp
  from Finalize_day_aggregate [where OpenSession = "Inr ()" and session = "()"
      and Evaluate = "fixedScorer scenarioCWeights", OF h1 refl h2 h3]
  obtain r where
    r: "fst (Finalize (Inr ()) (fixedScorer scenarioCWeights) scenarioC) = Inr r"
       "resCommitsByDay r = commitsByDay scenarioC"
       "\<forall>day \<in> set (keys (entries (commentsByDay scenarioC))).
              if keptPairs scenarioC scenarioCWeights day = []
              then day \<notin> set (keys (EmotionsByDay r)) \<and> day \<notin> set (keys (CommentsByDay r))
              else map_of (EmotionsByDay r) day =
                     Some (fdiv (foldl fadd (Fin False 0)
                                   (map snd (keptPairs scenarioC scenarioCWeights day)))
                             (float32_of_int
                                (int (length (keptPairs scenarioC scenarioCWeights day))))) \<and>
                   map_of (CommentsByDay r) day =
                     Some (map fst (keptPairs scenarioC scenarioCWeights day))"
    by blast
  from bspec [OF r(3) h5] ne have "map_of (EmotionsByDay r) 5 = Some (Fin False (1/2)) \<and>
        map_of (CommentsByDay r) 5 = Some [''first comment'', ''third comment'']"
    unfolding mn cs by (simp only: if_False)
  moreover from bspec [OF r(3) h6]
  have "6 \<notin> set (keys (EmotionsByDay r)) \<and> 6 \<notin> set (keys (CommentsByDay r))"
    unfolding kp by simp
  ultimately show ?thesis using r(1) r(2) cm h1 h2 h3 h5 h6 by simp
qed

subsection \<open>The flat list and the positional mapping (C7)\<close>

text \<open>
  C7: Finalize enumerates the day buckets in ascending order and appends each day's
  comments in their stored order to one flat list; the scorer is called exactly once, on
  that list; the comment at position j of a day sits at position \<open>dayStart + j\<close> of the
  flat list and is paired with the weight at that same position, and the result is
  computed from these pairs: the comments of a day are those of its pairs that pass the
  test of line 211 and its score is the \<^verbatim>\<open>float32\<close> mean of their weights.
\<close>

theorem Finalize_positional_mapping:
  assumes dist: "distinct (keys (entries (commentsByDay sent)))"
    and opn: "OpenSession = Inr session"
    and ev: "Evaluate (flatTexts sent) session = Inr weights"
    and len: "length (flatTexts sent) \<le> length weights"
  shows "sorted (sortedDays sent) \<and> distinct (sortedDays sent) \<and>
         set (sortedDays sent) = set (keys (entries (commentsByDay sent))) \<and>
         flatTexts sent = concat (map (dayComments sent) (sortedDays sent)) \<and>
         snd (Finalize OpenSession Evaluate sent) = [flatTexts sent] \<and>
         (\<forall>day j. j < length (dayComments sent day) \<longrightarrow>
            dayStart sent day + j < length (flatTexts sent) \<and>
            flatTexts sent ! (dayStart sent day + j) = dayComments sent day ! j \<and>
            dayPairs sent weights day ! j =
              (dayComments sent day ! j, weights ! (dayStart sent day + j))) \<and>
         (\<exists>r. fst (Finalize OpenSession Evaluate sent) = Inr r \<and>
            (\<forall>day. map_of (CommentsByDay r) day =
                     (if keptPairs sent weights day = [] then None
                      else Some (map fst (keptPairs sent weights day))) \<and>
                   map_of (EmotionsByDay r) day =
                     (if keptPairs sent weights day = [] then None
                      else Some (fmean (map snd (keptPairs sent weights day))))))"
proof -
  have a: "sorted (sortedDays sent) \<and> distinct (sortedDays sent) \<and>
           set (sortedDays sent) = set (keys (entries (commentsByDay sent)))"
    using dist by (simp add: sortedDays_def)
  have b: "dayStart sent day + j < length (flatTexts sent) \<and>
           flatTexts sent ! (dayStart sent day + j) = dayComments sent day ! j \<and>
           dayPairs sent weights day ! j =
             (dayComments sent day ! j, weights ! (dayStart sent day + j))"
    if j: "j < length (dayComments sent day)" for day j
  proof -
    note s = day_slice_nth [OF dist j]
    from s len have "dayStart sent day + j < length weights" by simp
    then have "dayPairs sent weights day ! j =
               (dayComments sent day ! j, weights ! (dayStart sent day + j))"
      using j by (simp add: dayPairs_eq [OF dist])
    with s show ?thesis by simp
  qed
  from Finalize_ok [where Evaluate = Evaluate, OF dist opn ev len] obtain r where
    r: "Finalize OpenSession Evaluate sent = (Inr r, [flatTexts sent])"
       "\<forall>k. map_of (CommentsByDay r) k =
                (if keptPairs sent weights k = [] then None
                 else Some (map fst (keptPairs sent weights k)))"
       "\<forall>k. map_of (EmotionsByDay r) k =
                (if keptPairs sent weights k = [] then None
                 else Some (fmean (map snd (keptPairs sent weights k))))"
    by blast
  have c: "snd (Finalize OpenSession Evaluate sent) = [flatTexts sent]" using r(1) by simp
  have d: "\<exists>r. fst (Finalize OpenSession Evaluate sent) = Inr r \<and>
            (\<forall>day. map_of (CommentsByDay r) day =
                     (if keptPairs sent weights day = [] then None
                      else Some (map fst (keptPairs sent weights day))) \<and>
                   map_of (EmotionsByDay r) day =
                     (if keptPairs sent weights day = [] then None
                      else Some (fmean (map snd (keptPairs sent weights day)))))"
    using r by auto
  from a b c d flatTexts_concat [of sent] show ?thesis by blast
qed

theorem Finalize_positional_mapping_witness:
  "sortedDays twoDays = [5, 7] \<and>
   snd (Finalize (Inr ()) (fixedScorer clearWeights) twoDays) =
     [[''alpha'', ''beta'', ''delta'', ''gamma'']] \<and>
   flatTexts twoDays ! (dayStart twoDays 7 + 0) = ''gamma'' \<and>
   dayPairs twoDays clearWeights 7 ! 0 = (''gamma'', Fin False 1) \<and>
   (\<exists>r. fst (Finalize (Inr ()) (fixedScorer clearWeights) twoDays) = Inr r \<and>
        map_of (CommentsByDay r) 5 = Some [''alpha'', ''delta''] \<and>
        map_of (EmotionsByDay r) 5 = Some (Fin False (1/2)) \<and>
        map_of (CommentsByDay r) 7 = Some [''gamma''])"
proof -
  have len: "length (flatTexts twoDays) \<le> length clearWeights"
    by (simp add: twoDays_flatTexts clearWeights_def)
  have dc: "dayComments twoDays 7 = [''gamma'']" by code_simp
  have ds: "dayStart twoDays 7 = 3" by code_simp
  have sd: "sortedDays twoDays = [5, 7]" by code_simp
  have w3: "clearWeights ! 3 = Fin False 1" by code_simp
  have kp: "keptPairs twoDays clearWeights 5 =
              [(''alpha'', Fin False (1/8)), (''delta'', Fin False (7/8))]"
    "keptPairs twoDays clearWeights 7 = [(''gamma'', Fin False 1)]"
    by code_simp code_simp
  have mn: "fmean [Fin False (1/8), Fin False (7/8)] = Fin False (1/2)" by code_simp
  have j: "0 < length (dayComments twoDays 7)" by (simp add: dc)
  note t = Finalize_positional_mapping [where OpenSession = "Inr ()" and session = "()"
      and Evaluate = "fixedScorer clearWeights", OF twoDays_distinct refl twoDays_scorer len]
  from t obtain r where
    r: "fst (Finalize (Inr ()) (fixedScorer clearWeights) twoDays) = Inr r"
       "\<forall>day. map_of (CommentsByDay r) day =
                     (if keptPairs twoDays clearWeights day = [] then None
                      else Some (map fst (keptPairs twoDays clearWeights day))) \<and>
                   map_of (EmotionsByDay r) day =
                     (if keptPairs twoDays clearWeights day = [] then None
                      else Some (fmean (map snd (keptPairs twoDays clearWeights day))))"
    by blast
  from t j have p: "flatTexts twoDays ! (dayStart twoDays 7 + 0) = dayComments twoDays 7 ! 0 \<and>
            dayPairs twoDays clearWeights 7 ! 0 =
              (dayComments twoDays 7 ! 0, clearWeights ! (dayStart twoDays 7 + 0))"
    by blast
  from t have s: "snd (Finalize (Inr ()) (fixedScorer clearWeights) twoDays) = [flatTexts twoDays]"
    by blast
  from spec [OF r(2), of 5] spec [OF r(2), of 7]
  have "map_of (CommentsByDay r) 5 = Some [''alpha'', ''delta''] \<and>
        map_of (EmotionsByDay r) 5 = Some (Fin False (1/2)) \<and>
        map_of (CommentsByDay r) 7 = Some [''gamma'']"
    unfolding kp by (simp add: mn)
  with r(1) p s show ?thesis
    by (simp add: sd twoDays_flatTexts dc ds w3)
qed

section \<open>Configuration validation (C5)\<close>

text \<open>
  What \<open>validate\<close> does, for every configuration: it never fails; it resets the gap to 0.5,
  with one logged warning, exactly when one of the two comparisons of line 123 holds, and
  the minimum comment length to 20, with one logged warning, exactly when it is below 10;
  after a reset the analysis is in the state reached from the default, and a configuration
  which passes both tests is kept with nothing logged.
\<close>

lemma validate_resets:
  "Gap (fst (validate sent)) =
     (if flt (Gap sent) (Fin False 0) \<or> fle (Fin False 1) (Gap sent)
      then Fin False 0.5 else Gap sent) \<and>
   MinCommentLength (fst (validate sent)) =
     (if MinCommentLength sent < 10 then 20 else MinCommentLength sent) \<and>
   snd (validate sent) =
     (if flt (Gap sent) (Fin False 0) \<or> fle (Fin False 1) (Gap sent)
      then [(''Sentiment gap is too big: %f => reset to the default %f'',
             [FloatArg (Gap sent), FloatArg (Fin False 0.5)])]
      else []) @
     (if MinCommentLength sent < 10
      then [(''Comment minimum length is too small: %d => reset to the default %d'',
             [IntArg (MinCommentLength sent), IntArg 20])]
      else []) \<and>
   commentsByDay (fst (validate sent)) = commentsByDay sent \<and>
   commitsByDay (fst (validate sent)) = commitsByDay sent \<and>
   xpather (fst (validate sent)) = xpather sent"
  by (simp add: validate_def DefaultCommentSentimentGap_def
      DefaultCommentSentimentCommentMinLength_def)

lemma validate_minimum_as_default:
  "MinCommentLength sent < 10 \<Longrightarrow>
     fst (validate sent) = fst (validate (sent\<lparr>MinCommentLength := 20\<rparr>)) \<and>
     mergeComments (fst (validate sent)) nodes =
       mergeComments (sent\<lparr>MinCommentLength := 20\<rparr>) nodes"
  by (simp add: validate_def DefaultCommentSentimentGap_def
      DefaultCommentSentimentCommentMinLength_def mergeComments_def)

lemma validate_tooShort:
  "validate tooShort =
     (tooShort\<lparr>Gap := Fin False 0.5, MinCommentLength := 20\<rparr>,
      [(''Sentiment gap is too big: %f => reset to the default %f'',
        [FloatArg (Fin False (3/2)), FloatArg (Fin False 0.5)]),
       (''Comment minimum length is too small: %d => reset to the default %d'',
        [IntArg 5, IntArg 20])])"
  by (simp add: validate_def tooShort_def DefaultCommentSentimentGap_def
      DefaultCommentSentimentCommentMinLength_def signedVal_def)

text \<open>
  C5 does not hold of the code for a gap that is not a number. NaN is a value of
  \<^verbatim>\<open>float32\<close> outside [0,1), but both comparisons of line 123, \<^verbatim>\<open>sent.Gap < 0\<close> and
  \<^verbatim>\<open>sent.Gap >= 1\<close>, are false for it: \<open>validate\<close> keeps the NaN gap and logs nothing,
  where the claim has the gap reset to 0.5 with a warning. Filtering then does not behave
  as with the default: both bounds of line 211 are NaN, no score passes the test and
  Finalize returns empty maps, although with the default gap the same scores give the two
  days of \<open>twoDays\<close>.
\<close>

theorem validate_keeps_NaN:
  "Gap nanGap = NaN \<and>
   \<not> (fle (Fin False 0) (Gap nanGap) \<and> flt (Gap nanGap) (Fin False 1)) \<and>
   validate nanGap = (nanGap, []) \<and>
   Gap (fst (validate nanGap)) \<noteq> Fin False 0.5 \<and>
   lowerBound (Gap nanGap) = NaN \<and> upperBound (Gap nanGap) = NaN \<and>
   Finalize (Inr ()) (fixedScorer clearWeights) (fst (validate nanGap)) =
     (Inr \<lparr>EmotionsByDay = [], CommentsByDay = [], resCommitsByDay = Some []\<rparr>,
      [[''alpha'', ''beta'', ''delta'', ''gamma'']]) \<and>
   nanGap\<lparr>Gap := Fin False 0.5\<rparr> = twoDays \<and>
   Finalize (Inr ()) (fixedScorer clearWeights) twoDays =
     (Inr \<lparr>EmotionsByDay = [(5, Fin False (1/2)), (7, Fin False 1)],
           CommentsByDay = [(5, [''alpha'', ''delta'']), (7, [''gamma''])],
           resCommitsByDay = Some []\<rparr>,
      [[''alpha'', ''beta'', ''delta'', ''gamma'']])"
proof -
  have g: "Gap nanGap = NaN" by (simp add: nanGap_def)
  have v: "validate nanGap = (nanGap, [])"
    by (simp add: validate_def nanGap_def)
  have b: "lowerBound (Gap nanGap) = NaN" "upperBound (Gap nanGap) = NaN"
    by (simp_all add: g lowerBound_def upperBound_def fsub_def)
  have f: "Finalize (Inr ()) (fixedScorer clearWeights) nanGap =
     (Inr \<lparr>EmotionsByDay = [], CommentsByDay = [], resCommitsByDay = Some []\<rparr>,
      [[''alpha'', ''beta'', ''delta'', ''gamma'']])"
    by code_simp
  have t: "nanGap\<lparr>Gap := Fin False 0.5\<rparr> = twoDays"
    by (simp add: nanGap_def twoDays_def)
  have d: "Finalize (Inr ()) (fixedScorer clearWeights) twoDays =
     (Inr \<lparr>EmotionsByDay = [(5, Fin False (1/2)), (7, Fin False 1)],
           CommentsByDay = [(5, [''alpha'', ''delta'']), (7, [''gamma''])],
           resCommitsByDay = Some []\<rparr>,
      [[''alpha'', ''beta'', ''delta'', ''gamma'']])"
    by code_simp
  from g v b f t d show ?thesis by simp
qed

section \<open>The noise filter\<close>

lemma leadingSpace_le: "leadingSpace s \<le> length s"
proof (cases "find (\<lambda>e. take (length e) s = e) spaceRunes")
  case None
  then show ?thesis by (simp add: leadingSpace_def)
next
  case (Some e)
  then have "take (length e) s = e" by (auto dest: find_Some_iff [THEN iffD1])
  then have "length e \<le> length s" by (metis length_take min.cobounded1)
  with Some show ?thesis by (simp add: leadingSpace_def)
qed

lemma TrimLeft_length: "length (TrimLeft s) \<le> length s"
proof (induction s rule: TrimLeft.induct)
  case (1 s)
  show ?case
  proof (cases "leadingSpace s = 0")
    case True
    then show ?thesis by (simp add: TrimLeft.simps)
  next
    case False
    from "1" [OF False] have "length (TrimLeft (drop (leadingSpace s) s)) \<le> length s" by simp
    with False show ?thesis by (subst TrimLeft.simps) simp
  qed
qed

lemma TrimRight_length: "length (TrimRight s) \<le> length s"
proof (induction s rule: TrimRight.induct)
  case (1 s)
  show ?case
  proof (cases "trailingSpace s = 0")
    case True
    then show ?thesis by (simp add: TrimRight.simps)
  next
    case False
    from "1" [OF False] have "length (TrimRight (take (length s - trailingSpace s) s)) \<le> length s"
      by simp
    with False show ?thesis by (subst TrimRight.simps) simp
  qed
qed

lemma TrimSpace_length: "length (TrimSpace s) \<le> length s"
  unfolding TrimSpace_def
  by (rule order_trans [OF TrimRight_length TrimLeft_length])

lemma ReplaceAllString_delete_length: "length (ReplaceAllString re s []) \<le> length s"
proof (induction re s "[] :: string" rule: ReplaceAllString.induct)
  case (1 re)
  then show ?case by simp
next
  case (2 re c cs)
  show ?case
  proof (cases "matchAt re (c # cs)")
    case None
    with 2 show ?thesis by simp
  next
    case (Some n)
    show ?thesis
    proof (cases "0 < n")
      case True
      from 2(2) [OF Some True]
      have "length (ReplaceAllString re (drop n (c # cs)) []) \<le> length (c # cs)" by simp
      with Some True show ?thesis by simp
    next
      case False
      with 2(3) [OF Some] Some show ?thesis by simp
    qed
  qed
qed

lemma ReplaceAllString_single_length: "length (ReplaceAllString re s [x]) \<le> length s"
proof (induction re s "[x]" rule: ReplaceAllString.induct)
  case (1 re)
  then show ?case by simp
next
  case (2 re c cs)
  show ?case
  proof (cases "matchAt re (c # cs)")
    case None
    with 2 show ?thesis by simp
  next
    case (Some n)
    show ?thesis
    proof (cases "0 < n")
      case True
      from 2(2) [OF Some True]
      have "length (ReplaceAllString re (drop n (c # cs)) [x]) \<le> length (c # cs) - n" by simp
      with Some True show ?thesis by simp
    next
      case False
      with 2(3) [OF Some] Some show ?thesis by simp
    qed
  qed
qed

lemma filterLoop_set:
  "set (filterLoop minLen merged acc) =
   set acc \<union> {c. \<exists>m \<in> set merged. cleanComment minLen m = Some c}"
proof (induction merged arbitrary: acc)
  case Nil
  then show ?case by simp
next
  case (Cons m ms)
  show ?case
  proof (cases "cleanComment minLen m")
    case None
    then show ?thesis by (auto simp: Cons.IH)
  next
    case (Some c)
    then show ?thesis by (auto simp: Cons.IH)
  qed
qed

lemma mergeComments_output:
  "c \<in> set (mergeComments sent nodes) \<longleftrightarrow>
   (\<exists>merged \<in> set (mergeRuns nodes). cleanComment (MinCommentLength sent) merged = Some c)"
  by (simp add: mergeComments_def filterLoop_set)

text \<open>The stages of the cleaning of one comment, as an inversion of \<open>cleanComment\<close>.\<close>

lemma cleanComment_SomeD:
  assumes "cleanComment minLen merged = Some c"
  shows "TrimSpace merged \<noteq> [] \<and>
         \<not> MatchString filteredFirstCharRE (take 1 (TrimSpace merged)) \<and>
         minLen \<le> int (length (ReplaceAllString filteredCharsRE
                                 (ReplaceAllString functionNameRE (TrimSpace merged) []) [])) \<and>
         c = ReplaceAllString whitespaceRE
               (ReplaceAllString filteredCharsRE
                  (ReplaceAllString functionNameRE (TrimSpace merged) []) []) '' '' \<and>
         \<not> charsCount c < lettersThreshold c \<and>
         \<not> MatchString licenseRE c"
  using assms by (auto simp: cleanComment_def Let_def split: if_splits)

subsection \<open>The patterns match at least one byte; the letter count\<close>

lemma lens_Plus_pos: "n \<in> set (lens (Plus P) s) \<Longrightarrow> 0 < n"
  by simp arith

lemma lens_Cat_mem:
  "n \<in> set (lens (Cat r1 r2) s) \<longleftrightarrow>
   (\<exists>a \<in> set (lens r1 s). \<exists>b \<in> set (lens r2 (drop a s)). n = a + b)"
  by auto

lemma lens_Class_mem: "n \<in> set (lens (Class P) s) \<Longrightarrow> n = 1"
  by (cases s) (auto split: if_splits)

lemma lens_Cat_Class_pos: "n \<in> set (lens (Cat r1 (Cat (Class P) r2)) s) \<Longrightarrow> 0 < n"
  unfolding lens_Cat_mem by (auto dest: lens_Class_mem)

lemma matchAt_mem: "matchAt re s = Some n \<Longrightarrow> n \<in> set (lens re s)"
  by (auto simp: matchAt_def split: list.splits)

lemma matchAt_Plus:
  "matchAt (Plus P) s =
     (if takeWhile P s = [] then None else Some (length (takeWhile P s)))"
proof (cases "takeWhile P s")
  case Nil
  then show ?thesis by (simp add: matchAt_def)
next
  case (Cons a as)
  then show ?thesis by (simp add: matchAt_def)
qed

lemma patterns_match_nonempty:
  "matchAt functionNameRE s \<noteq> Some 0"
  "matchAt filteredCharsRE s \<noteq> Some 0"
  "matchAt whitespaceRE s \<noteq> Some 0"
  "matchAt charsRE s \<noteq> Some 0"
proof -
  show "matchAt functionNameRE s \<noteq> Some 0"
    unfolding functionNameRE_def
    using lens_Cat_Class_pos [of 0] matchAt_mem [of _ s 0] by blast
  show "matchAt filteredCharsRE s \<noteq> Some 0"
    unfolding filteredCharsRE_def
    using lens_Plus_pos [of 0] matchAt_mem [of _ s 0] by blast
  show "matchAt whitespaceRE s \<noteq> Some 0"
    unfolding whitespaceRE_def
    using lens_Plus_pos [of 0] matchAt_mem [of _ s 0] by blast
  show "matchAt charsRE s \<noteq> Some 0"
    unfolding charsRE_def
    using lens_Plus_pos [of 0] matchAt_mem [of _ s 0] by blast
qed



lemma drop_takeWhile: "drop (length (takeWhile P xs)) xs = dropWhile P xs"
  by (induction xs) auto

lemma length_filter_split: "length (filter P xs) = length (takeWhile P xs) + length (filter P (dropWhile P xs))"
  by (induction xs) auto


lemma FindAll_Plus_step_no:
  "\<not> P c \<Longrightarrow> FindAllStringIndex (Plus P) (c # cs) pos = FindAllStringIndex (Plus P) cs (pos + 1)"
  by (simp add: matchAt_Plus)

lemma FindAll_Plus_step_yes:
  assumes "P c"
  shows "FindAllStringIndex (Plus P) (c # cs) pos =
     (pos, pos + int (length (takeWhile P (c # cs)))) #
     FindAllStringIndex (Plus P) (dropWhile P (c # cs)) (pos + int (length (takeWhile P (c # cs))))"
proof -
  have m: "matchAt (Plus P) (c # cs) = Some (length (takeWhile P (c # cs)))"
    using assms by (simp add: matchAt_Plus)
  have p: "0 < length (takeWhile P (c # cs))" using assms by simp
  show ?thesis
    by (subst FindAllStringIndex.simps(2)) (simp only: m option.case p if_True drop_takeWhile)
qed


lemma FindAll_Plus_sum:
  "foldl (\<lambda>count match. count + (snd match - fst match)) a
     (FindAllStringIndex (Plus P) s pos) = a + int (length (filter P s))"
proof (induction s arbitrary: a pos rule: length_induct)
  case (1 s)
  show ?case
  proof (cases s)
    case Nil
    then show ?thesis by simp
  next
    case (Cons c cs)
    show ?thesis
    proof (cases "P c")
      case False
      have "length cs < length s" using Cons by simp
      with 1 have "foldl (\<lambda>count match. count + (snd match - fst match)) a
          (FindAllStringIndex (Plus P) cs (pos + 1)) = a + int (length (filter P cs))"
        by blast
      with False show ?thesis
        unfolding Cons FindAll_Plus_step_no [of P c, OF False] by simp
    next
      case True
      let ?n = "length (takeWhile P (c # cs))"
      let ?rest = "dropWhile P (c # cs)"
      have "length ?rest \<le> length cs" using True by (simp add: length_dropWhile_le)
      then have "length ?rest < length s" using Cons by simp
      with 1 have "foldl (\<lambda>count match. count + (snd match - fst match)) (a + int ?n)
          (FindAllStringIndex (Plus P) ?rest (pos + int ?n)) =
          a + int ?n + int (length (filter P ?rest))"
        by blast
      moreover have "length (filter P (c # cs)) = ?n + length (filter P ?rest)"
        by (rule length_filter_split)
      ultimately show ?thesis
        unfolding Cons FindAll_Plus_step_yes [of P c, OF True]
        by (simp only: foldl_Cons fst_conv snd_conv) simp
    qed
  qed
qed

lemma charsCount_letters: "charsCount comment = int (length (filter isLetter comment))"
  by (simp add: charsCount_def charsRE_def FindAll_Plus_sum)


subsection \<open>The filter never lengthens a comment (C8)\<close>

text \<open>
  C8: no stage of the filter lengthens the string (trimming, deleting the matches of the
  function-name pattern and of the disallowed characters, replacing each white space run
  by one space), so the cleaned comment is at most as long as the merged comment it comes
  from, and every output of the filter comes from a merged comment at least as long.
\<close>

theorem cleanComment_never_longer:
  "length (TrimSpace s) \<le> length s \<and>
   length (ReplaceAllString functionNameRE s []) \<le> length s \<and>
   length (ReplaceAllString filteredCharsRE s []) \<le> length s \<and>
   length (ReplaceAllString whitespaceRE s '' '') \<le> length s \<and>
   (\<forall>c. cleanComment minLen s = Some c \<longrightarrow> length c \<le> length s) \<and>
   (\<forall>c \<in> set (mergeComments sent nodes).
      \<exists>merged \<in> set (mergeRuns nodes).
        cleanComment (MinCommentLength sent) merged = Some c \<and> length c \<le> length merged)"
proof -
  have whole: "length c \<le> length m" if "cleanComment k m = Some c" for k m c
  proof -
    let ?t = "TrimSpace m"
    let ?f = "ReplaceAllString functionNameRE ?t []"
    let ?g = "ReplaceAllString filteredCharsRE ?f []"
    from cleanComment_SomeD [OF that] have "c = ReplaceAllString whitespaceRE ?g '' ''" by simp
    then have "length c \<le> length ?g" by (simp add: ReplaceAllString_single_length)
    also have "\<dots> \<le> length ?f" by (rule ReplaceAllString_delete_length)
    also have "\<dots> \<le> length ?t" by (rule ReplaceAllString_delete_length)
    also have "\<dots> \<le> length m" by (rule TrimSpace_length)
    finally show ?thesis .
  qed
  then have "\<forall>c \<in> set (mergeComments sent nodes).
      \<exists>merged \<in> set (mergeRuns nodes).
        cleanComment (MinCommentLength sent) merged = Some c \<and> length c \<le> length merged"
    by (fastforce simp: mergeComments_output)
  with whole show ?thesis
    by (simp add: TrimSpace_length ReplaceAllString_delete_length ReplaceAllString_single_length)
qed


lemma scenarioA_mergeComments:
  "mergeComments twoDays scenarioA = [''this comment spans two lines of text'']"
  by code_simp

theorem cleanComment_never_longer_witness:
  "cleanComment 20 ''this comment spans\<newline>two lines of text'' =
     Some ''this comment spans two lines of text'' \<and>
   length ''this comment spans two lines of text'' \<le>
     length ''this comment spans\<newline>two lines of text'' \<and>
   ''this comment spans two lines of text'' \<in> set (mergeComments twoDays scenarioA) \<and>
   (\<exists>merged \<in> set (mergeRuns scenarioA).
      cleanComment (MinCommentLength twoDays) merged =
        Some ''this comment spans two lines of text'' \<and>
      length ''this comment spans two lines of text'' \<le> length merged)"
proof -
  have c: "cleanComment 20 ''this comment spans\<newline>two lines of text'' =
           Some ''this comment spans two lines of text''"
    by code_simp
  have m: "''this comment spans two lines of text'' \<in> set (mergeComments twoDays scenarioA)"
    by (simp add: scenarioA_mergeComments)
  note t = cleanComment_never_longer [of "''this comment spans\<newline>two lines of text''" 20
      twoDays scenarioA]
  from t c have "length ''this comment spans two lines of text'' \<le>
                 length ''this comment spans\<newline>two lines of text''"
    by blast
  moreover from t m have "\<exists>merged \<in> set (mergeRuns scenarioA).
      cleanComment (MinCommentLength twoDays) merged =
        Some ''this comment spans two lines of text'' \<and>
      length ''this comment spans two lines of text'' \<le> length merged"
    by blast
  ultimately show ?thesis using c m by blast
qed

subsection \<open>What holds of every output of the filter (C2)\<close>

lemma firstChar_check:
  "MatchString filteredFirstCharRE (take 1 (c # cs)) \<longleftrightarrow> \<not> (isLetter c \<or> isDigit c)"
  by (simp add: filteredFirstCharRE_def matchAt_def)

text \<open>
  C2, as stated, fails: the length is tested before the white space runs are collapsed and
  the first character is tested before the function names are removed. The comment
  \<open>init()      sets    up     state\<close> passes both tests; removing \<open>init()\<close> leaves 26
  bytes, and collapsing gives an output of 14 bytes, below the minimum of 20, that starts
  with a space.
\<close>

theorem mergeComments_invariant_counterexample:
  "mergeComments twoDays wideComment = ['' sets up state''] \<and>
   MinCommentLength twoDays = 20 \<and>
   length '' sets up state'' = 14 \<and>
   hd '' sets up state'' = CHR '' '' \<and>
   \<not> (isLetter CHR '' '' \<or> isDigit CHR '' '')"
proof -
  have "mergeComments twoDays wideComment = ['' sets up state'']"
    by code_simp
  moreover have "MinCommentLength twoDays = 20" by (simp add: twoDays_def)
  moreover have "\<not> (isLetter CHR '' '' \<or> isDigit CHR '' '')"
    by (simp add: isLetter_def isDigit_def)
  ultimately show ?thesis by simp
qed

text \<open>
  C2, amended: every string in the output of the filter does not match the license
  pattern, and it is the result of collapsing the white space runs of a stripped comment
  (function names and disallowed characters removed from a trimmed merged comment) whose
  length is at least the configured minimum and whose trimmed merged comment starts with
  an ASCII letter or digit.
\<close>

theorem mergeComments_invariant:
  "\<forall>c \<in> set (mergeComments sent nodes).
     \<not> MatchString licenseRE c \<and>
     (\<exists>merged \<in> set (mergeRuns nodes). \<exists>first rest.
        TrimSpace merged = first # rest \<and> (isLetter first \<or> isDigit first) \<and>
        MinCommentLength sent \<le>
          int (length (ReplaceAllString filteredCharsRE
                         (ReplaceAllString functionNameRE (TrimSpace merged) []) [])) \<and>
        c = ReplaceAllString whitespaceRE
              (ReplaceAllString filteredCharsRE
                 (ReplaceAllString functionNameRE (TrimSpace merged) []) []) '' '')"
proof
  fix c
  assume "c \<in> set (mergeComments sent nodes)"
  then obtain merged where m: "merged \<in> set (mergeRuns nodes)"
    and c: "cleanComment (MinCommentLength sent) merged = Some c"
    by (auto simp: mergeComments_output)
  note d = cleanComment_SomeD [OF c]
  from d obtain first rest where t: "TrimSpace merged = first # rest"
    by (cases "TrimSpace merged") auto
  from d have "\<not> MatchString filteredFirstCharRE (take 1 (TrimSpace merged))" by simp
  then have a: "isLetter first \<or> isDigit first"
    unfolding t firstChar_check by simp
  from d m t a show "\<not> MatchString licenseRE c \<and>
     (\<exists>merged \<in> set (mergeRuns nodes). \<exists>first rest.
        TrimSpace merged = first # rest \<and> (isLetter first \<or> isDigit first) \<and>
        MinCommentLength sent \<le>
          int (length (ReplaceAllString filteredCharsRE
                         (ReplaceAllString functionNameRE (TrimSpace merged) []) [])) \<and>
        c = ReplaceAllString whitespaceRE
              (ReplaceAllString filteredCharsRE
                 (ReplaceAllString functionNameRE (TrimSpace merged) []) []) '' '')"
    by blast
qed

theorem mergeComments_invariant_witness:
  "'' sets up state'' \<in> set (mergeComments twoDays wideComment) \<and>
   \<not> MatchString licenseRE '' sets up state'' \<and>
   (\<exists>merged \<in> set (mergeRuns wideComment). \<exists>first rest.
        TrimSpace merged = first # rest \<and> (isLetter first \<or> isDigit first) \<and>
        MinCommentLength twoDays \<le>
          int (length (ReplaceAllString filteredCharsRE
                         (ReplaceAllString functionNameRE (TrimSpace merged) []) [])) \<and>
        '' sets up state'' = ReplaceAllString whitespaceRE
              (ReplaceAllString filteredCharsRE
                 (ReplaceAllString functionNameRE (TrimSpace merged) []) []) '' '')"
proof -
  have "mergeComments twoDays wideComment = ['' sets up state'']"
    by code_simp
  then have m: "'' sets up state'' \<in> set (mergeComments twoDays wideComment)" by simp
  from bspec [OF mergeComments_invariant m] m show ?thesis by blast
qed

subsection \<open>The letter density test (C4)\<close>

text \<open>
  C4 says that the letter-density step rejects a comment exactly when its letters (the
  bytes covered by the matches of \<open>[a-zA-Z]+\<close>) are under 60% of its length. The code
  compares the letter count with the truncated product \<open>int(len * 0.6)\<close>. At the comment
  \<open>abcdefghijkl 12345678\<close>, 12 letters in 21 bytes are fewer than 60% of the length
  (12.6), but the truncated threshold is 12 and the comment is kept.
\<close>

theorem letters_ratio_truncated:
  "mergeComments twoDays shortOfLetters = [''abcdefghijkl 12345678''] \<and>
   cleanComment 20 ''abcdefghijkl 12345678'' = Some ''abcdefghijkl 12345678'' \<and>
   charsCount ''abcdefghijkl 12345678'' = 12 \<and>
   length (filter isLetter ''abcdefghijkl 12345678'') = 12 \<and>
   length ''abcdefghijkl 12345678'' = 21 \<and>
   lettersThreshold ''abcdefghijkl 12345678'' = 12 \<and>
   real_of_int (charsCount ''abcdefghijkl 12345678'') <
     CommentLettersRatio * real (length ''abcdefghijkl 12345678'')"
proof -
  have a: "cleanComment 20 ''abcdefghijkl 12345678'' = Some ''abcdefghijkl 12345678''"
    by code_simp
  have b: "charsCount ''abcdefghijkl 12345678'' = 12"
    by code_simp
  have c: "lettersThreshold ''abcdefghijkl 12345678'' = 12"
    by (simp add: lettersThreshold_def CommentLettersRatio_def)
  have d: "length (filter isLetter ''abcdefghijkl 12345678'') = 12"
    using charsCount_letters [of "''abcdefghijkl 12345678''"] unfolding b by simp
  have e: "mergeComments twoDays shortOfLetters = [''abcdefghijkl 12345678'']"
    by code_simp
  show ?thesis unfolding b c d using a e by (simp add: CommentLettersRatio_def)
qed

section \<open>The per-commit step (C10)\<close>






section \<open>The comment merger (C6)\<close>

lemma index_addNode:
  "index (addNode acc n) l = index acc l @ (if lineNo n = Some l then [n] else [])"
  by (cases "StartPosition n") (auto simp: addNode_def lineNo_def index_def update_conv' Let_def)

lemma keys_addNode:
  "set (keys (addNode acc n)) =
   set (keys acc) \<union> (case lineNo n of None \<Rightarrow> {} | Some l \<Rightarrow> {l})"
  by (cases "StartPosition n") (auto simp: addNode_def lineNo_def keys_def dom_update Let_def)

lemma distinct_addNode: "distinct (keys acc) \<Longrightarrow> distinct (keys (addNode acc n))"
  by (cases "StartPosition n") (auto simp: addNode_def keys_def distinct_update Let_def)

lemma index_foldl_addNode:
  "index (foldl addNode acc nodes) l = index acc l @ nodesAt nodes l"
  by (induction nodes arbitrary: acc) (auto simp: index_addNode nodesAt_def)

lemma keys_foldl_addNode:
  "set (keys (foldl addNode acc nodes)) = set (keys acc) \<union> set (List.map_filter lineNo nodes)"
  by (induction nodes arbitrary: acc)
     (auto simp: keys_addNode List.map_filter_simps split: option.splits)

lemma distinct_foldl_addNode:
  "distinct (keys acc) \<Longrightarrow> distinct (keys (foldl addNode acc nodes))"
  by (induction nodes arbitrary: acc) (auto simp: distinct_addNode)

lemma index_bucketLines: "index (bucketLines nodes) l = nodesAt nodes l"
proof -
  have "index ([] :: (int, Node list) gomap) l = []" by (simp add: index_def)
  then show ?thesis by (simp add: bucketLines_def index_foldl_addNode)
qed

lemma sorted_keys_bucketLines: "sort (keys (bucketLines nodes)) = lineNumbers nodes"
proof (rule sorted_distinct_set_unique)
  show "sorted (sort (keys (bucketLines nodes)))" by simp
  have "distinct (keys ([] :: (int, Node list) gomap))" by (simp add: keys_def)
  then show "distinct (sort (keys (bucketLines nodes)))"
    by (simp add: bucketLines_def distinct_foldl_addNode)
  show "sorted (lineNumbers nodes)" by (simp add: lineNumbers_def)
  show "distinct (lineNumbers nodes)" by (simp add: lineNumbers_def)
  show "set (sort (keys (bucketLines nodes))) = set (lineNumbers nodes)"
    by (simp add: bucketLines_def keys_foldl_addNode lineNumbers_def) (simp add: keys_def)
qed

lemma lineLoop_eq:
  "lineLoop ns maxEnd buffer =
     (Max (set (maxEnd # List.map_filter endLine ns)),
      buffer @ filter (\<lambda>t. t \<noteq> []) (map (\<lambda>n. TrimSpace (Token n)) ns))"
proof (induction ns arbitrary: maxEnd buffer)
  case Nil
  then show ?case by (simp add: List.map_filter_simps)
next
  case (Cons n ns)
  show ?case
  proof (cases "EndPosition n")
    case None
    then show ?thesis
      by (simp add: Cons.IH Let_def List.map_filter_simps endLine_def)
  next
    case (Some e)
    have m: "Max (insert (max maxEnd (uint (Line e))) A) = Max (insert maxEnd (insert (uint (Line e)) A))"
      if "finite A" for A :: "int set"
      using that by (cases "A = {}") (simp_all add: max.assoc)
    have "(if maxEnd < uint (Line e) then uint (Line e) else maxEnd) = max maxEnd (uint (Line e))"
      by (simp add: max_def)
    with Some show ?thesis
      by (simp add: Cons.IH Let_def List.map_filter_simps endLine_def m del: Max_insert)
  qed
qed

lemma lineLoop_bucket:
  "lineLoop (index (bucketLines nodes) l) l buffer = (maxEndAt nodes l, buffer @ tokensAt nodes l)"
  by (simp add: lineLoop_eq index_bucketLines maxEndAt_def tokensAt_def)

lemma runs_nonempty: "runs me (l # ls) \<noteq> []"
  by (induction me "l # ls" arbitrary: l ls rule: runs.induct) (auto split: list.splits)

lemma mergeLoop_runs:
  "(\<And>l buffer. lineLoop (index lines l) l buffer = (me l, buffer @ tk l)) \<Longrightarrow>
   ls \<noteq> [] \<Longrightarrow>
   mergeLoop lines ls buffer merged =
     merged @ (case runs me ls of
                 [] \<Rightarrow> []
               | r # rs \<Rightarrow> Join (buffer @ concat (map tk r)) [CHR 0x0A] #
                          map (\<lambda>run. Join (concat (map tk run)) [CHR 0x0A]) rs)"
proof (induction me ls arbitrary: buffer merged rule: runs.induct)
  case (1 maxEnd)
  then show ?case by simp
next
  case (2 maxEnd l)
  then show ?case by simp
next
  case (3 maxEnd l nxt rest)
  note step = "3.prems"(1)
  obtain r rs where r: "runs maxEnd (nxt # rest) = r # rs"
    using runs_nonempty [of maxEnd nxt rest] by (cases "runs maxEnd (nxt # rest)") auto
  show ?case
  proof (cases "nxt \<le> maxEnd l + 1")
    case True
    have "mergeLoop lines (nxt # rest) (buffer @ tk l) merged =
          merged @ Join ((buffer @ tk l) @ concat (map tk r)) [CHR 0x0A] #
                   map (\<lambda>run. Join (concat (map tk run)) [CHR 0x0A]) rs"
      using "3.IH"(1) [OF True step, of "buffer @ tk l" merged] r by simp
    moreover have "mergeLoop lines (l # nxt # rest) buffer merged =
                   mergeLoop lines (nxt # rest) (buffer @ tk l) merged"
      using True by (simp add: step del: mergeLoop.simps(2) add: mergeLoop.simps(2) [of lines l])
    ultimately show ?thesis using True r by simp
  next
    case False
    have "mergeLoop lines (nxt # rest) [] (merged @ [Join (buffer @ tk l) [CHR 0x0A]]) =
          (merged @ [Join (buffer @ tk l) [CHR 0x0A]]) @
            Join ([] @ concat (map tk r)) [CHR 0x0A] #
            map (\<lambda>run. Join (concat (map tk run)) [CHR 0x0A]) rs"
      using "3.IH"(2) [OF False step, of "[]" "merged @ [Join (buffer @ tk l) [CHR 0x0A]]"] r
      by simp
    moreover have "mergeLoop lines (l # nxt # rest) buffer merged =
                   mergeLoop lines (nxt # rest) [] (merged @ [Join (buffer @ tk l) [CHR 0x0A]])"
      using False by (simp add: step del: mergeLoop.simps(2) add: mergeLoop.simps(2) [of lines l])
    ultimately show ?thesis using False r by simp
  qed
qed

lemma mergeRuns_amendedMerge: "mergeRuns nodes = amendedMerge nodes"
proof (cases "lineNumbers nodes = []")
  case True
  then show ?thesis
    by (simp add: mergeRuns_def amendedMerge_def sorted_keys_bucketLines Let_def)
next
  case False
  from mergeLoop_runs [where lines = "bucketLines nodes" and me = "maxEndAt nodes"
      and tk = "tokensAt nodes", OF lineLoop_bucket False, of "[]" "[]"]
  show ?thesis
    by (simp add: mergeRuns_def amendedMerge_def sorted_keys_bucketLines Let_def
        split: list.splits)
qed


lemma maxEndAt_literal:
  assumes "\<forall>n \<in> set nodes. \<forall>s e. lineNo n = Some s \<and> endLine n = Some e \<longrightarrow> s \<le> e"
  shows "maxEndAt nodes l = literalMaxEnd nodes l"
proof (cases "List.map_filter endLine (nodesAt nodes l)")
  case Nil
  then show ?thesis by (simp add: maxEndAt_def literalMaxEnd_def)
next
  case (Cons e es)
  then have "e \<in> set (List.map_filter endLine (nodesAt nodes l))" by simp
  then obtain n where "n \<in> set nodes" "lineNo n = Some l" "endLine n = Some e"
    by (auto simp: List.map_filter_def nodesAt_def)
  with assms have "l \<le> e" by blast
  then have "max l (Max (insert e (set es))) = Max (insert e (set es))"
    by (intro max_absorb2 order_trans [OF _ Max_ge]) auto
  moreover have "Max (insert l (insert e (set es))) = max l (Max (insert e (set es)))"
    by (rule Max_insert) simp_all
  ultimately show ?thesis using Cons
    by (simp add: maxEndAt_def literalMaxEnd_def del: Max_insert)
qed

lemma adjacent_lines:
  assumes "lineNo n1 = Some 10" "lineNo n2 = Some 11"
  shows "amendedMerge [n1, n2] =
         [Join (filter (\<lambda>t. t \<noteq> []) [TrimSpace (Token n1), TrimSpace (Token n2)]) [CHR 0x0A]]"
proof -
  have ln: "lineNumbers [n1, n2] = [10, 11]"
    using assms by (simp add: lineNumbers_def List.map_filter_simps)
  have na: "nodesAt [n1, n2] 10 = [n1]" "nodesAt [n1, n2] 11 = [n2]"
    using assms by (simp_all add: nodesAt_def)
  have "10 \<le> maxEndAt [n1, n2] 10"
    unfolding maxEndAt_def by (rule Max_ge) simp_all
  then have "runs (maxEndAt [n1, n2]) [10, 11] = [[10, 11]]" by simp
  then show ?thesis
    by (simp add: amendedMerge_def ln tokensAt_def na)
qed

text \<open>
  C6, as stated, fails on the rule for \<open>maxEnd\<close>. The code starts \<open>maxEnd\<close> at the line
  itself and only raises it to a larger end line (lines 302-306), so \<open>maxEnd\<close> is never
  below the line; the claim takes the largest end line among the line's nodes and falls
  back to the line only when there is none. For a node that starts on line 10 and ends on
  line 5, followed by a node on line 11, the claim's \<open>maxEnd\<close> of line 10 is 5, the run
  breaks (11 > 6) and two comments result; the code's \<open>maxEnd\<close> is 10 and it merges the two
  nodes into one comment.
\<close>

theorem mergeRuns_maxEnd_counterexample:
  "lineNumbers endsBeforeStart = [10, 11] \<and>
   literalMaxEnd endsBeforeStart 10 = 5 \<and>
   specMerge endsBeforeStart = [''alpha'', ''beta''] \<and>
   mergeRuns endsBeforeStart = [''alpha\<newline>beta'']"
proof -
  have "lineNumbers endsBeforeStart = [10, 11]" by code_simp
  moreover have "literalMaxEnd endsBeforeStart 10 = 5" by code_simp
  moreover have "specMerge endsBeforeStart = [''alpha'', ''beta'']" by code_simp
  moreover have "mergeRuns endsBeforeStart = [''alpha\<newline>beta'']" by code_simp
  ultimately show ?thesis by blast
qed

text \<open>
  C6, amended: for every input node list, the Comment Merger buckets nodes by start line
  (dropping nodes without a start position), sorts the distinct line numbers ascending,
  and joins a run into one MergedComment with newline separators, where a run continues
  from one line to the next if and only if the next line number is at most \<open>maxEnd + 1\<close>,
  \<open>maxEnd\<close> being the largest of the line itself and the end lines of the current line's
  nodes; the strings joined are the tokens of the run's nodes, trimmed of white space,
  those that are empty after trimming left out. In particular two comment nodes on lines
  10 and 11 merge into a single newline-joined string.
\<close>

theorem mergeRuns_line_runs:
  "mergeRuns nodes =
     map (\<lambda>run. Join (concat (map (tokensAt nodes) run)) [CHR 0x0A])
       (runs (maxEndAt nodes) (lineNumbers nodes)) \<and>
   (lineNo n1 = Some 10 \<and> lineNo n2 = Some 11 \<longrightarrow>
      mergeRuns [n1, n2] =
        [Join (filter (\<lambda>t. t \<noteq> []) [TrimSpace (Token n1), TrimSpace (Token n2)]) [CHR 0x0A]])"
  using adjacent_lines [of n1 n2] mergeRuns_amendedMerge [of nodes]
    mergeRuns_amendedMerge [of "[n1, n2]"]
  by (simp add: amendedMerge_def)

theorem mergeRuns_line_runs_witness:
  "lineNo (commentNode 10 10 ''this comment spans '') = Some 10 \<and>
   lineNo (commentNode 11 11 ''  two lines of text'') = Some 11 \<and>
   mergeRuns scenarioA = [''this comment spans\<newline>two lines of text''] \<and>
   lineNumbers endsBeforeStart = [10, 11] \<and>
   maxEndAt endsBeforeStart 10 = 10 \<and>
   runs (maxEndAt endsBeforeStart) (lineNumbers endsBeforeStart) = [[10, 11]] \<and>
   mergeRuns endsBeforeStart = [''alpha\<newline>beta''] \<and>
   tokensAt blankToken 11 = [] \<and>
   mergeRuns blankToken = [''alpha'']"
proof -
  have l: "lineNo (commentNode 10 10 ''this comment spans '') = Some 10"
    "lineNo (commentNode 11 11 ''  two lines of text'') = Some 11"
    by (simp_all add: lineNo_def commentNode_def)
  have t: "TrimSpace ''this comment spans '' = ''this comment spans''"
    "TrimSpace ''  two lines of text'' = ''two lines of text''"
    by code_simp code_simp
  have tk: "Token (commentNode a b s) = s" for a b s by (simp add: commentNode_def)
  from mergeRuns_line_runs [of scenarioA "commentNode 10 10 ''this comment spans ''"
      "commentNode 11 11 ''  two lines of text''", THEN conjunct2, THEN mp, OF conjI [OF l]]
  have m: "mergeRuns scenarioA = [''this comment spans\<newline>two lines of text'']"
    by (simp add: scenarioA_def tk t)
  have ln: "lineNumbers endsBeforeStart = [10, 11]" by code_simp
  have me: "maxEndAt endsBeforeStart 10 = 10" by code_simp
  have rn: "runs (maxEndAt endsBeforeStart) (lineNumbers endsBeforeStart) = [[10, 11]]"
    by code_simp
  have e: "map (\<lambda>run. Join (concat (map (tokensAt endsBeforeStart) run)) [CHR 0x0A])
             (runs (maxEndAt endsBeforeStart) (lineNumbers endsBeforeStart)) =
           [''alpha\<newline>beta'']"
    by code_simp
  have tb: "tokensAt blankToken 11 = []" by code_simp
  have b: "map (\<lambda>run. Join (concat (map (tokensAt blankToken) run)) [CHR 0x0A])
             (runs (maxEndAt blankToken) (lineNumbers blankToken)) = [''alpha'']"
    by code_simp
  have m2: "mergeRuns endsBeforeStart = [''alpha\<newline>beta'']"
    using mergeRuns_line_runs [of endsBeforeStart "commentNode 10 5 ''alpha''" "commentNode 11 11 ''beta''",
        THEN conjunct1] unfolding e .
  have m3: "mergeRuns blankToken = [''alpha'']"
    using mergeRuns_line_runs [of blankToken "commentNode 10 10 ''alpha''" "commentNode 11 11 ''   ''",
        THEN conjunct1] unfolding b .
  from l m ln me rn m2 tb m3 show ?thesis by simp
qed

section \<open>The text serializer (C9)\<close>

lemma Sprintf_line:
  "Sprintf ''  %d: [%.4f, [%s], \"%s\"]\<newline>'' [IntArg day, FloatArg score, StrArg hashes, StrArg comments] =
   Some (''  '' @ formatInt day @ '': ['' @ formatFloat4 score @ '', ['' @ hashes @
         ''], \"'' @ comments @ ''\"]\<newline>'')"
  by simp

lemma textLoop_eq:
  "textLoop result days writer =
   Some (writer @ concat (map (\<lambda>day.
     ''  '' @ formatInt day @ '': ['' @ formatFloat4 (indexNum (EmotionsByDay result) day) @
     '', ['' @ Join (map HashString (index (entries (resCommitsByDay result)) day)) '','' @
     ''], \"'' @ Join (index (CommentsByDay result) day) ''|'' @ ''\"]\<newline>'') days))"
proof (induction days arbitrary: writer)
  case Nil
  then show ?case by simp
next
  case (Cons day days)
  show ?case
    unfolding textLoop.simps Let_def Sprintf_line by (simp add: Cons.IH)
qed

subsection \<open>What the digits denote\<close>

lemma below_ten: "n < 10 \<Longrightarrow> n \<in> {0, 1, 2, 3, 4, 5, 6, 7, 8, 9 :: nat}"
  by auto

lemma decDigit_props:
  assumes "n < 10"
  shows "digitValue (decDigit n) = n" "decDigit n \<in> set ''0123456789''"
    "decDigit n = CHR ''0'' \<longleftrightarrow> n = 0"
  using below_ten [OF assms] by (auto simp: decDigit_def digitValue_def)

lemma decimalValue_snoc: "decimalValue (s @ [c]) = 10 * decimalValue s + digitValue c"
  by (simp add: decimalValue_def)

lemma decimalValue_append:
  "decimalValue (s @ t) = decimalValue s * 10 ^ length t + decimalValue t"
proof (induction t rule: rev_induct)
  case Nil
  then show ?case by (simp add: decimalValue_def)
next
  case (snoc c t)
  have "decimalValue (s @ t @ [c]) = 10 * decimalValue (s @ t) + digitValue c"
    using decimalValue_snoc [of "s @ t" c] by simp
  then show ?case by (simp add: snoc.IH decimalValue_snoc algebra_simps)
qed

lemma decimalValue_zeros: "decimalValue (replicate k CHR ''0'' @ s) = decimalValue s"
proof -
  have "decimalValue (replicate k CHR ''0'') = 0"
    by (induction k) (simp_all add: decimalValue_def digitValue_def)
  then show ?thesis by (simp add: decimalValue_append)
qed

lemma digits_value: "decimalValue (digits n) = n"
proof (induction n rule: digits.induct)
  case (1 n)
  show ?case
  proof (cases "n < 10")
    case True
    then show ?thesis
      by (subst digits.simps) (simp add: decimalValue_def decDigit_props)
  next
    case False
    have "n mod 10 < 10" by simp
    with False 1 show ?thesis
      by (subst digits.simps) (simp add: decimalValue_snoc decDigit_props)
  qed
qed

lemma digits_chars: "set (digits n) \<subseteq> set ''0123456789''"
proof (induction n rule: digits.induct)
  case (1 n)
  show ?case
  proof (cases "n < 10")
    case True
    then show ?thesis
      using decDigit_props(2) [of n] by (subst digits.simps) simp
  next
    case False
    have "n mod 10 < 10" by simp
    with False 1 decDigit_props(2) [of "n mod 10"] show ?thesis
      by (subst digits.simps) simp
  qed
qed

lemma digits_nonempty: "digits n \<noteq> []"
  by (subst digits.simps) simp

lemma digits_zero: "digits 0 = ''0''"
  by (subst digits.simps) (simp add: decDigit_def)

lemma digits_leading: "hd (digits n) = CHR ''0'' \<Longrightarrow> n = 0"
proof (induction n rule: digits.induct)
  case (1 n)
  show ?case
  proof (cases "n < 10")
    case True
    with "1.prems" show ?thesis
      using decDigit_props(3) [of n] by (subst (asm) digits.simps) simp
  next
    case False
    with "1.prems" have "hd (digits (n div 10)) = CHR ''0''"
      by (subst (asm) digits.simps) (simp add: digits_nonempty)
    with False 1 have "n div 10 = 0" by simp
    with False show ?thesis by simp
  qed
qed

lemma digits_length: "n < 10 ^ k \<Longrightarrow> 0 < k \<Longrightarrow> length (digits n) \<le> k"
proof (induction n arbitrary: k rule: digits.induct)
  case (1 n)
  show ?case
  proof (cases "n < 10")
    case True
    with "1.prems" show ?thesis by (subst digits.simps) simp
  next
    case False
    obtain j where k: "k = Suc j" using "1.prems"(2) by (cases k) auto
    have "0 < j"
    proof (rule ccontr)
      assume "\<not> 0 < j"
      with k "1.prems"(1) False show False by simp
    qed
    moreover have "n div 10 < 10 ^ j" using "1.prems"(1) k by (simp add: less_mult_imp_div_less)
    ultimately have "length (digits (n div 10)) \<le> j" using "1.IH" [OF False] by simp
    with False k show ?thesis by (subst digits.simps) simp
  qed
qed

lemma pad4_digits:
  assumes "k < 10000"
  shows "length (pad4 (digits k)) = 4" "decimalValue (pad4 (digits k)) = k"
    "set (pad4 (digits k)) \<subseteq> set ''0123456789''"
proof -
  have "length (digits k) \<le> 4" using digits_length [of k 4] assms by simp
  then show "length (pad4 (digits k)) = 4" by (simp add: pad4_def)
  show "decimalValue (pad4 (digits k)) = k"
    unfolding pad4_def by (simp only: decimalValue_zeros digits_value)
  show "set (pad4 (digits k)) \<subseteq> set ''0123456789''"
    using digits_chars [of k] by (auto simp: pad4_def)
qed

lemma formatInt_decimal:
  "\<exists>ds. formatInt day = (if day < 0 then ''-'' else []) @ ds \<and> ds \<noteq> [] \<and>
        set ds \<subseteq> set ''0123456789'' \<and> (hd ds = CHR ''0'' \<longrightarrow> ds = ''0'') \<and>
        int (decimalValue ds) = \<bar>day\<bar>"
proof -
  let ?ds = "digits (nat \<bar>day\<bar>)"
  have "formatInt day = (if day < 0 then ''-'' else []) @ ?ds"
    by (simp add: formatInt_def abs_if)
  moreover have "hd ?ds = CHR ''0'' \<longrightarrow> ?ds = ''0''"
    using digits_leading [of "nat \<bar>day\<bar>"] by (auto simp: digits_zero)
  ultimately show ?thesis
    using digits_nonempty digits_chars digits_value [of "nat \<bar>day\<bar>"] by auto
qed

lemma formatFloat4_nearest:
  assumes m: "0 \<le> m"
  shows "\<exists>ip fp. formatFloat4 (Fin s m) = (if s then ''-'' else []) @ ip @ ''.'' @ fp \<and>
           length fp = 4 \<and> ip \<noteq> [] \<and> set (ip @ fp) \<subseteq> set ''0123456789'' \<and>
           (hd ip = CHR ''0'' \<longrightarrow> ip = ''0'') \<and>
           \<bar>m * 10000 - real (decimalValue (ip @ fp))\<bar> \<le> 1 / 2 \<and>
           (\<bar>m * 10000 - real (decimalValue (ip @ fp))\<bar> = 1 / 2 \<longrightarrow>
              even (decimalValue (ip @ fp)))"
proof -
  define r where "r = roundHalfEven (m * 10000)"
  define n where "n = nat r"
  let ?ip = "digits (n div 10000)"
  let ?fp = "pad4 (digits (n mod 10000))"
  note near = roundHalfEven_nearest [of "m * 10000", folded r_def]
  have "0 \<le> r"
  proof (rule ccontr)
    assume "\<not> 0 \<le> r"
    then have "of_int r \<le> (- 1 :: real)" by simp
    with m near show False by (simp add: abs_if split: if_splits)
  qed
  then have rn: "real n = of_int r" and ev: "even n \<longleftrightarrow> even r"
    by (simp_all add: n_def even_nat_iff)
  have lt: "n mod 10000 < 10000" by simp
  note fp = pad4_digits [OF lt]
  have v: "decimalValue (?ip @ ?fp) = n"
    by (simp add: decimalValue_append fp digits_value)
  have f: "formatFloat4 (Fin s m) = (if s then ''-'' else []) @ ?ip @ ''.'' @ ?fp"
    by (simp add: n_def r_def)
  have h: "hd ?ip = CHR ''0'' \<longrightarrow> ?ip = ''0''"
    using digits_leading [of "n div 10000"] by (auto simp: digits_zero)
  have c: "set (?ip @ ?fp) \<subseteq> set ''0123456789''"
    using digits_chars [of "n div 10000"] fp(3) by simp
  have "\<bar>m * 10000 - real (decimalValue (?ip @ ?fp))\<bar> \<le> 1 / 2 \<and>
        (\<bar>m * 10000 - real (decimalValue (?ip @ ?fp))\<bar> = 1 / 2 \<longrightarrow>
           even (decimalValue (?ip @ ?fp)))"
    unfolding v rn ev using near by simp
  with f fp(1) digits_nonempty [of "n div 10000"] c h show ?thesis by blast
qed

lemma sampleResult_text:
  "serializeText sampleResult [] =
     Some (''  5: [0.0312, [deadbeef000102030405060708090a0b0c0d0e0f,ffffffffffffffffffffffffffffffffffffffff], \"alpha|beta\"]\<newline>'' @
           ''  7: [1.0000, [], \"gamma\"]\<newline>'')"
  by code_simp

text \<open>
  C9, as stated, fails on the separators: the claim has a comma after the score and a
  comma after the bracketed hashes, where the format of line 248 writes a comma and a
  space in both places. For the result below the text in the claim's words and the text
  the serializer writes differ.
\<close>

theorem serializeText_commas_counterexample:
  "serializeText sampleResult [] =
     Some (''  5: [0.0312, [deadbeef000102030405060708090a0b0c0d0e0f,ffffffffffffffffffffffffffffffffffffffff], \"alpha|beta\"]\<newline>'' @
           ''  7: [1.0000, [], \"gamma\"]\<newline>'') \<and>
   claimedText sampleResult =
     ''  5: [0.0312,[deadbeef000102030405060708090a0b0c0d0e0f,ffffffffffffffffffffffffffffffffffffffff],\"alpha|beta\"]\<newline>'' @
     ''  7: [1.0000,[],\"gamma\"]\<newline>'' \<and>
   serializeText sampleResult [] \<noteq> Some (claimedText sampleResult)"
proof -
  have c: "claimedText sampleResult =
     ''  5: [0.0312,[deadbeef000102030405060708090a0b0c0d0e0f,ffffffffffffffffffffffffffffffffffffffff],\"alpha|beta\"]\<newline>'' @
     ''  7: [1.0000,[],\"gamma\"]\<newline>''"
    by code_simp
  have "serializeText sampleResult [] \<noteq> Some (claimedText sampleResult)"
    unfolding sampleResult_text c by simp
  with sampleResult_text c show ?thesis by blast
qed

text \<open>
  C9, amended: the text serializer appends to the writer exactly one record per day of
  \<open>EmotionsByDay\<close>, in ascending day order, each record being two spaces, the day integer,
  a colon and a space, an opening bracket, the score rendered to 4 decimal places, a comma
  and a space, the comma-joined commit-hash strings in brackets, a comma and a space, the
  pipe-joined comment strings in double quotes, a closing bracket, and a newline. The day
  is written in decimal, with a minus sign when negative and no leading zero. The score
  is written as a minus sign when its sign bit is set, then decimal digits, a point and
  exactly four decimal digits, such that the digits before and after the point, read as
  one decimal number, are the integer nearest to 10000 times the magnitude of the score,
  the even one of the two when the score is halfway between them; a score that is not a
  number is written \<^verbatim>\<open>NaN\<close> and an infinite one \<^verbatim>\<open>+Inf\<close> or \<^verbatim>\<open>-Inf\<close>.
\<close>

theorem serializeText_format:
  "serializeText result writer =
     Some (writer @ concat (map (\<lambda>day.
       ''  '' @ formatInt day @ '': ['' @ formatFloat4 (indexNum (EmotionsByDay result) day) @
       '', ['' @ Join (map HashString (index (entries (resCommitsByDay result)) day)) '','' @
       ''], \"'' @ Join (index (CommentsByDay result) day) ''|'' @ ''\"]\<newline>'')
       (sort (keys (EmotionsByDay result))))) \<and>
   sorted (sort (keys (EmotionsByDay result))) \<and>
   set (sort (keys (EmotionsByDay result))) = set (keys (EmotionsByDay result)) \<and>
   (distinct (keys (EmotionsByDay result)) \<longrightarrow>
      distinct (sort (keys (EmotionsByDay result))) \<and>
      length (sort (keys (EmotionsByDay result))) = card (set (keys (EmotionsByDay result)))) \<and>
   (\<exists>ds. formatInt d = (if d < 0 then ''-'' else []) @ ds \<and> ds \<noteq> [] \<and>
         set ds \<subseteq> set ''0123456789'' \<and> (hd ds = CHR ''0'' \<longrightarrow> ds = ''0'') \<and>
         int (decimalValue ds) = \<bar>d\<bar>) \<and>
   (0 \<le> m \<longrightarrow>
      (\<exists>ip fp. formatFloat4 (Fin s m) = (if s then ''-'' else []) @ ip @ ''.'' @ fp \<and>
         length fp = 4 \<and> ip \<noteq> [] \<and> set (ip @ fp) \<subseteq> set ''0123456789'' \<and>
         (hd ip = CHR ''0'' \<longrightarrow> ip = ''0'') \<and>
         \<bar>m * 10000 - real (decimalValue (ip @ fp))\<bar> \<le> 1 / 2 \<and>
         (\<bar>m * 10000 - real (decimalValue (ip @ fp))\<bar> = 1 / 2 \<longrightarrow>
            even (decimalValue (ip @ fp))))) \<and>
   formatFloat4 NaN = ''NaN'' \<and> formatFloat4 (Inf False) = ''+Inf'' \<and>
   formatFloat4 (Inf True) = ''-Inf''"
proof -
  have a: "serializeText result writer =
     Some (writer @ concat (map (\<lambda>day.
       ''  '' @ formatInt day @ '': ['' @ formatFloat4 (indexNum (EmotionsByDay result) day) @
       '', ['' @ Join (map HashString (index (entries (resCommitsByDay result)) day)) '','' @
       ''], \"'' @ Join (index (CommentsByDay result) day) ''|'' @ ''\"]\<newline>'')
       (sort (keys (EmotionsByDay result)))))"
    by (simp add: serializeText_def textLoop_eq)
  have b: "sorted (sort (keys (EmotionsByDay result))) \<and>
   set (sort (keys (EmotionsByDay result))) = set (keys (EmotionsByDay result)) \<and>
   (distinct (keys (EmotionsByDay result)) \<longrightarrow>
      distinct (sort (keys (EmotionsByDay result))) \<and>
      length (sort (keys (EmotionsByDay result))) = card (set (keys (EmotionsByDay result))))"
    by (simp add: distinct_card)
  have c: "formatFloat4 NaN = ''NaN'' \<and> formatFloat4 (Inf False) = ''+Inf'' \<and>
   formatFloat4 (Inf True) = ''-Inf''"
    by simp
  from a b c formatInt_decimal [of d] formatFloat4_nearest [of m s] show ?thesis
    by (intro conjI impI) blast+
qed

theorem serializeText_format_witness:
  "distinct (keys (EmotionsByDay sampleResult)) \<and>
   sort (keys (EmotionsByDay sampleResult)) = [5, 7] \<and>
   serializeText sampleResult [] =
     Some (''  5: [0.0312, [deadbeef000102030405060708090a0b0c0d0e0f,ffffffffffffffffffffffffffffffffffffffff], \"alpha|beta\"]\<newline>'' @
           ''  7: [1.0000, [], \"gamma\"]\<newline>'') \<and>
   indexNum (EmotionsByDay sampleResult) 5 = Fin False (1/32) \<and>
   0 \<le> (1/32 :: real) \<and>
   formatFloat4 (Fin False (1/32)) = ''0.0312'' \<and>
   \<bar>1/32 * 10000 - real (decimalValue ''00312'')\<bar> = 1 / 2 \<and>
   even (decimalValue ''00312'') \<and>
   indexNum (EmotionsByDay sampleResult) 7 = Fin False (16776545/16777216) \<and>
   formatFloat4 (Fin False (16776545/16777216)) = ''1.0000'' \<and>
   \<bar>16776545/16777216 * 10000 - real (decimalValue ''10000'')\<bar> < 1 / 2"
proof -
  have d: "distinct (keys (EmotionsByDay sampleResult))"
    by (simp add: sampleResult_def keys_def)
  have s: "sort (keys (EmotionsByDay sampleResult)) = [5, 7]"
    by (simp add: sampleResult_def keys_def)
  have i5: "indexNum (EmotionsByDay sampleResult) 5 = Fin False (1/32)"
    and i7: "indexNum (EmotionsByDay sampleResult) 7 = Fin False (16776545/16777216)"
    by code_simp code_simp
  have f5: "formatFloat4 (Fin False (1/32)) = ''0.0312''"
    and f7: "formatFloat4 (Fin False (16776545/16777216)) = ''1.0000''"
    by code_simp code_simp
  have l5: "''  '' @ formatInt 5 @ '': ['' @ ''0.0312'' @
       '', ['' @ Join (map HashString (index (entries (resCommitsByDay sampleResult)) 5)) '','' @
       ''], \"'' @ Join (index (CommentsByDay sampleResult) 5) ''|'' @ ''\"]\<newline>'' =
       ''  5: [0.0312, [deadbeef000102030405060708090a0b0c0d0e0f,ffffffffffffffffffffffffffffffffffffffff], \"alpha|beta\"]\<newline>''"
    by code_simp
  have l7: "''  '' @ formatInt 7 @ '': ['' @ ''1.0000'' @
       '', ['' @ Join (map HashString (index (entries (resCommitsByDay sampleResult)) 7)) '','' @
       ''], \"'' @ Join (index (CommentsByDay sampleResult) 7) ''|'' @ ''\"]\<newline>'' =
       ''  7: [1.0000, [], \"gamma\"]\<newline>''"
    by code_simp
  have v: "decimalValue ''00312'' = 312" "decimalValue ''10000'' = 10000"
    by (simp_all add: decimalValue_def digitValue_def)
  from serializeText_format [of sampleResult "[]" 5 "1/32" False, THEN conjunct1]
  have "serializeText sampleResult [] =
     Some (''  5: [0.0312, [deadbeef000102030405060708090a0b0c0d0e0f,ffffffffffffffffffffffffffffffffffffffff], \"alpha|beta\"]\<newline>'' @
           ''  7: [1.0000, [], \"gamma\"]\<newline>'')"
    unfolding s
    by (simp only: list.map concat.simps i5 i7 f5 f7 l5 l7 append_Nil append_Nil2)
  with d s i5 i7 f5 f7 show ?thesis by (simp add: v)
qed

end
